theory Spec2Isabelle
  imports Complex_Main "HOL-Library.Word"
begin

section \<open>Basic types of \<^verbatim>\<open>casm/monte/definitions.hh\<close>\<close>

text \<open>
  \<^verbatim>\<open>enum class SAMPLE_MODE { BY_STEP, BY_PASS, BY_TIME }\<close> and
  \<^verbatim>\<open>enum class SAMPLE_METHOD { LINEAR, LOG }\<close>.
  \<^verbatim>\<open>CountType\<close> is \<^verbatim>\<open>long\<close>; signed overflow is undefined in C++, so the
  counters are modelled as unbounded integers (lemma \<open>increment_step_bounds\<close> below shows
  that no counter exceeds the number of steps taken).  \<^verbatim>\<open>TimeType\<close> is \<^verbatim>\<open>double\<close>;
  the schedule arithmetic is idealised over the reals.
\<close>

datatype SAMPLE_MODE = BY_STEP | BY_PASS | BY_TIME

datatype SAMPLE_METHOD = LINEAR | LOG

type_synonym CountType = int

type_synonym TimeType = real

text \<open>
  \<^verbatim>\<open>Index\<close> is a signed 64-bit integer.  Where the source compares an \<^verbatim>\<open>Index\<close> with a
  container size (\<^verbatim>\<open>component_index >= component_names.size()\<close>) the usual arithmetic
  conversions make the comparison unsigned; this is \<open>unat\<close> on the word.
\<close>

type_synonym Index = "64 word"

text \<open>
  An entry of an \<^verbatim>\<open>Eigen::VectorXd\<close> that is only stored and never computed with is a
  \<open>double\<close>: a finite value or the NaN that \<^verbatim>\<open>make_analysis\<close> fills in.
\<close>

datatype double = Finite real | signaling_NaN

type_synonym VectorXd = "double list"

text \<open>
  What a call can throw, and the outcome of a call.  \<^verbatim>\<open>std::runtime_error\<close> and
  \<^verbatim>\<open>std::out_of_range\<close> are the exceptions the modelled code throws itself;
  \<open>std_exception\<close> is any other exception derived from \<^verbatim>\<open>std::exception\<close>, with its
  \<^verbatim>\<open>what()\<close>, and \<open>not_std_exception\<close> a thrown object of any other type (both can come
  out of a function object passed in).  \<open>undefined_behavior\<close> marks a call whose behaviour
  C++ leaves undefined.
\<close>

datatype error =
    runtime_error string
  | out_of_range
  | std_exception string
  | not_std_exception
  | undefined_behavior

datatype 'a result = Returns 'a | Throws error

text \<open>
  \<open>is_std_exception e\<close>: a handler \<^verbatim>\<open>catch (std::exception &)\<close> catches \<open>e\<close>;
  \<open>what e\<close> is its message.
\<close>

fun is_std_exception :: "error \<Rightarrow> bool" where
  "is_std_exception (runtime_error _) = True"
| "is_std_exception out_of_range = True"
| "is_std_exception (std_exception _) = True"
| "is_std_exception not_std_exception = False"
| "is_std_exception undefined_behavior = False"

fun what :: "error \<Rightarrow> string" where
  "what (runtime_error msg) = msg"
| "what (std_exception msg) = msg"
| "what out_of_range = ''map::at''"
| "what _ = []"

text \<open>\<^verbatim>\<open>std::map::emplace\<close>: inserts only when the key is absent.\<close>

definition emplace :: "('k \<rightharpoonup> 'v) \<Rightarrow> 'k \<Rightarrow> 'v \<Rightarrow> ('k \<rightharpoonup> 'v)" where
  "emplace m k v = (case m k of None \<Rightarrow> m(k \<mapsto> v) | Some _ \<Rightarrow> m)"

text \<open>\<^verbatim>\<open>std::map::at\<close>: throws \<^verbatim>\<open>std::out_of_range\<close> when the key is absent.\<close>

definition map_at :: "('k \<rightharpoonup> 'v) \<Rightarrow> 'k \<Rightarrow> 'v result" where
  "map_at m k = (case m k of None \<Rightarrow> Throws out_of_range | Some v \<Rightarrow> Returns v)"

text \<open>
  \<^verbatim>\<open>std::round\<close> rounds halfway cases away from zero; the conversion of a \<^verbatim>\<open>double\<close> to
  \<^verbatim>\<open>CountType\<close> truncates toward zero.
\<close>

definition std_round :: "real \<Rightarrow> real" where
  "std_round x = (if 0 \<le> x then of_int \<lfloor>x + 1 / 2\<rfloor> else of_int \<lceil>x - 1 / 2\<rceil>)"

definition to_CountType :: "real \<Rightarrow> CountType" where
  "to_CountType x = (if 0 \<le> x then \<lfloor>x\<rfloor> else \<lceil>x\<rceil>)"

section \<open>Named functions, samplers and the state\<close>

text \<open>
  \<^verbatim>\<open>StateSamplingFunction\<close> and \<^verbatim>\<open>ResultsAnalysisFunction\<close> have the same members
  (\<^verbatim>\<open>name\<close>, \<^verbatim>\<open>description\<close>, \<^verbatim>\<open>shape\<close>, \<^verbatim>\<open>component_names\<close>, \<^verbatim>\<open>function\<close>) and
  differ in the type of \<^verbatim>\<open>function\<close> only, so both are instances of one record.  A
  sampling function takes no argument in the source and reads the simulation through its
  closure; the model passes what the closure reads as an argument of type \<open>'w\<close>.
\<close>

record 'f named_function =
  name :: string
  description :: string
  shape :: "int list"
  component_names :: "string list"
  func :: 'f

type_synonym 'w StateSamplingFunction = "('w \<Rightarrow> VectorXd) named_function"

text \<open>
  Modelled from the spec: \<^verbatim>\<open>Sampler\<close> (\<^verbatim>\<open>casm/monte/sampling/Sampler.hh\<close>) is not part
  of the sources at hand.  Section 4.1 of the specification: an append-only matrix of
  observation vectors with fixed \<^verbatim>\<open>component_names\<close> and \<^verbatim>\<open>shape\<close>;
  \<^verbatim>\<open>push_back(vec)\<close> appends a row and fails if \<^verbatim>\<open>len(vec) \<noteq> n_components\<close>;
  \<^verbatim>\<open>clear()\<close> drops all rows; \<^verbatim>\<open>n_samples()\<close> is the number of rows.
\<close>

record Sampler =
  sampler_shape :: "int list"
  sampler_component_names :: "string list"
  sampler_values :: "VectorXd list"

definition make_Sampler :: "int list \<Rightarrow> string list \<Rightarrow> Sampler" where
  "make_Sampler sh names =
     \<lparr>sampler_shape = sh, sampler_component_names = names, sampler_values = []\<rparr>"

definition n_components :: "Sampler \<Rightarrow> nat" where
  "n_components smp = length (sampler_component_names smp)"

definition n_samples :: "Sampler \<Rightarrow> nat" where
  "n_samples smp = length (sampler_values smp)"

definition push_back :: "Sampler \<Rightarrow> VectorXd \<Rightarrow> Sampler result" where
  "push_back smp vec =
     (if length vec \<noteq> n_components smp
      then Throws (runtime_error ''Error in Sampler::push_back: component size mismatch'')
      else Returns (smp\<lparr>sampler_values := sampler_values smp @ [vec]\<rparr>))"

definition clear :: "Sampler \<Rightarrow> Sampler" where
  "clear smp = smp\<lparr>sampler_values := []\<rparr>"

text \<open>\<^verbatim>\<open>State<ConfigType>\<close> of \<^verbatim>\<open>casm/monte/state/State.hh\<close>.\<close>

record 'c State =
  configuration :: 'c
  conditions :: "string \<rightharpoonup> VectorXd"
  properties :: "string \<rightharpoonup> VectorXd"

text \<open>
  The random number generator is outside the sources at hand.  It is modelled by the
  sequence of numbers its future calls \<^verbatim>\<open>random_real(1.0)\<close> return; a call takes the
  head of the sequence, scaled by \<^verbatim>\<open>max\<close>, and leaves the tail.
\<close>

type_synonym RandomNumberGenerator = "nat \<Rightarrow> real"

definition random_real :: "RandomNumberGenerator \<Rightarrow> real \<Rightarrow> real \<times> RandomNumberGenerator" where
  "random_real g mx = (mx * g 0, \<lambda>i. g (Suc i))"

section \<open>\<^verbatim>\<open>StateSampler\<close>\<close>

text \<open>
  The members of \<^verbatim>\<open>struct StateSampler\<close>, in the order of the source.  The member
  \<^verbatim>\<open>begin\<close> is called \<open>sample_begin\<close> here, after the constructor's parameter
  \<^verbatim>\<open>_sample_begin\<close>, and \<^verbatim>\<open>functions\<close> is \<open>functions'\<close> (both names are keywords of Isabelle).
\<close>

record ('c, 'w) StateSampler =
  random_number_generator :: RandomNumberGenerator
  sample_mode :: SAMPLE_MODE
  sample_method :: SAMPLE_METHOD
  sample_begin :: real
  period :: real
  samples_per_period :: real
  shift :: real
  stochastic_sample_period :: bool
  do_sample_trajectory :: bool
  do_sample_time :: bool
  functions' :: "'w StateSamplingFunction list"
  step :: CountType
  pass :: CountType
  steps_per_pass :: CountType
  count :: CountType
  time :: TimeType
  n_accept :: int
  n_reject :: int
  next_sample_count :: CountType
  next_sample_time :: TimeType
  samplers :: "string \<rightharpoonup> Sampler"
  sample_count :: "CountType list"
  sample_time :: "TimeType list"
  sample_weight :: Sampler
  sample_clocktime :: "TimeType list"
  sample_trajectory :: "'c list"

subsection \<open>Counters\<close>

text \<open>\<^verbatim>\<open>increment_step\<close>, \<^verbatim>\<open>increment_n_accept\<close>, \<^verbatim>\<open>increment_n_reject\<close>, \<^verbatim>\<open>set_time\<close>.\<close>

definition increment_step :: "('c, 'w) StateSampler \<Rightarrow> ('c, 'w) StateSampler" where
  "increment_step s =
     (let s1 = s\<lparr>step := step s + 1\<rparr>;
          s2 = (if sample_mode s1 = BY_STEP then s1\<lparr>count := count s1 + 1\<rparr> else s1)
      in if step s2 = steps_per_pass s2
         then (let s3 = s2\<lparr>pass := pass s2 + 1\<rparr>;
                   s4 = (if sample_mode s3 \<noteq> BY_STEP then s3\<lparr>count := count s3 + 1\<rparr> else s3)
               in s4\<lparr>step := 0\<rparr>)
         else s2)"

definition increment_n_accept :: "('c, 'w) StateSampler \<Rightarrow> ('c, 'w) StateSampler" where
  "increment_n_accept s = s\<lparr>n_accept := n_accept s + 1\<rparr>"

definition increment_n_reject :: "('c, 'w) StateSampler \<Rightarrow> ('c, 'w) StateSampler" where
  "increment_n_reject s = s\<lparr>n_reject := n_reject s + 1\<rparr>"

definition set_time :: "('c, 'w) StateSampler \<Rightarrow> real \<Rightarrow> ('c, 'w) StateSampler" where
  "set_time s event_time = s\<lparr>time := event_time\<rparr>"

subsection \<open>The schedule\<close>

text \<open>
  \<^verbatim>\<open>stochastic_count_step\<close> loops until a draw is below the rate; the loop need not end,
  so the function is partial and \<open>None\<close> stands for a call that never returns.
\<close>

partial_function (option) stochastic_count_step_loop ::
  "RandomNumberGenerator \<Rightarrow> real \<Rightarrow> CountType \<Rightarrow> (CountType \<times> RandomNumberGenerator) option"
where
  "stochastic_count_step_loop g sample_rate dn =
     (if fst (random_real g 1) < sample_rate
      then Some (dn, snd (random_real g 1))
      else stochastic_count_step_loop (snd (random_real g 1)) sample_rate (dn + 1))"

definition stochastic_count_step ::
  "RandomNumberGenerator \<Rightarrow> real \<Rightarrow> (CountType \<times> RandomNumberGenerator) option" where
  "stochastic_count_step g sample_rate = stochastic_count_step_loop g sample_rate 1"

definition stochastic_time_step ::
  "RandomNumberGenerator \<Rightarrow> real \<Rightarrow> TimeType \<times> RandomNumberGenerator" where
  "stochastic_time_step g sample_rate =
     (- ln (fst (random_real g 1)) / sample_rate, snd (random_real g 1))"

text \<open>
  \<^verbatim>\<open>sample_at(sample_index)\<close>.  \<^verbatim>\<open>std::pow\<close> and \<^verbatim>\<open>std::log\<close> are \<open>powr\<close> and \<open>ln\<close>,
  which agree with them for a positive \<^verbatim>\<open>period\<close>.  \<^verbatim>\<open>back()\<close> of an empty vector is
  undefined behaviour in C++ and an error of its own here.  The result carries the
  generator, which the stochastic branch advances.
\<close>

definition vector_back :: "'a list \<Rightarrow> 'a result" where
  "vector_back xs = (case xs of [] \<Rightarrow> Throws undefined_behavior | _ \<Rightarrow> Returns (last xs))"

definition sample_rate_at :: "('c, 'w) StateSampler \<Rightarrow> real \<Rightarrow> real" where
  "sample_rate_at s n =
     (if sample_method s = LINEAR
      then 1 / (period s / samples_per_period s)
      else 1 / (ln (period s) * (period s powr ((n + shift s) / samples_per_period s))
                 / samples_per_period s))"

definition sample_at ::
  "('c, 'w) StateSampler \<Rightarrow> CountType \<Rightarrow> (real \<times> RandomNumberGenerator) result option" where
  "sample_at s sample_index =
     (if stochastic_sample_period s then
        if sample_index = 0 then Some (Returns (sample_begin s, random_number_generator s))
        else
          let n = real_of_int sample_index;
              rate = sample_rate_at s n
          in if sample_mode s = BY_TIME then
               (case vector_back (sample_time s) of
                  Throws e \<Rightarrow> Some (Throws e)
                | Returns t \<Rightarrow>
                    Some (Returns (t + fst (stochastic_time_step (random_number_generator s) rate),
                                   snd (stochastic_time_step (random_number_generator s) rate))))
             else
               (case vector_back (sample_count s) of
                  Throws e \<Rightarrow> Some (Throws e)
                | Returns c \<Rightarrow>
                    (case stochastic_count_step (random_number_generator s) rate of
                       None \<Rightarrow> None
                     | Some (dn, g) \<Rightarrow> Some (Returns (real_of_int c + real_of_int dn, g))))
      else
        let n = real_of_int sample_index
        in if sample_method s = LINEAR
           then Some (Returns (sample_begin s + (period s / samples_per_period s) * n,
                               random_number_generator s))
           else Some (Returns (sample_begin s + period s powr ((n + shift s) / samples_per_period s),
                               random_number_generator s)))"

text \<open>\<^verbatim>\<open>reset(_steps_per_pass)\<close>.\<close>

definition reset ::
  "('c, 'w) StateSampler \<Rightarrow> real \<Rightarrow> ('c, 'w) StateSampler result option" where
  "reset s steps_per_pass' =
     (let s1 = s\<lparr>steps_per_pass := to_CountType steps_per_pass',
                 step := 0, pass := 0, count := 0, time := 0,
                 n_accept := 0, n_reject := 0,
                 samplers :=
                   fold (\<lambda>f m. emplace m (name f) (make_Sampler (shape f) (component_names f)))
                     (functions' s) Map.empty,
                 sample_count := [], sample_time := [],
                 sample_weight := clear (sample_weight s),
                 sample_clocktime := [], sample_trajectory := []\<rparr>
      in if sample_mode s1 = BY_TIME then
           (case sample_at (s1\<lparr>next_sample_count := 0\<rparr>) (int (length (sample_time s1))) of
              None \<Rightarrow> None
            | Some (Throws e) \<Rightarrow> Some (Throws e)
            | Some (Returns (v, g)) \<Rightarrow>
                if v < 0
                then Some (Throws (runtime_error
                  ''Error: state sampling period parameter error, next_sample_time < 0.0''))
                else Some (Returns (s1\<lparr>next_sample_count := 0, next_sample_time := v,
                                       random_number_generator := g\<rparr>)))
         else
           (case sample_at (s1\<lparr>next_sample_time := 0\<rparr>) (int (length (sample_count s1))) of
              None \<Rightarrow> None
            | Some (Throws e) \<Rightarrow> Some (Throws e)
            | Some (Returns (v, g)) \<Rightarrow>
                if to_CountType (std_round v) < 0
                then Some (Throws (runtime_error
                  ''Error: state sampling period parameter error, next_sample_count < 0''))
                else Some (Returns (s1\<lparr>next_sample_time := 0,
                                       next_sample_count := to_CountType (std_round v),
                                       random_number_generator := g\<rparr>))))"

text \<open>
  \<^verbatim>\<open>sample_data(state, log)\<close>.  \<open>clocktime\<close> is the value \<^verbatim>\<open>log.time_s()\<close> returns at
  the call and \<open>w\<close> is what the sampling functions read.  \<open>push_back_samples\<close> is the loop
  over \<^verbatim>\<open>functions\<close>, \<open>record_sample\<close> the first half of the body (up to and including
  the loop) and \<open>set_next_sample\<close> the second half (``Set next sample count'').
\<close>

fun push_back_samples ::
  "'w StateSamplingFunction list \<Rightarrow> 'w \<Rightarrow> (string \<rightharpoonup> Sampler) \<Rightarrow> (string \<rightharpoonup> Sampler) result"
where
  "push_back_samples [] w m = Returns m"
| "push_back_samples (f # fs) w m =
     (case map_at m (name f) of
        Throws e \<Rightarrow> Throws e
      | Returns smp \<Rightarrow>
          (case push_back smp (func f w) of
             Throws e \<Rightarrow> Throws e
           | Returns smp' \<Rightarrow> push_back_samples fs w (m(name f \<mapsto> smp'))))"

definition record_sample ::
  "('c, 'w) StateSampler \<Rightarrow> 'c State \<Rightarrow> 'w \<Rightarrow> real \<Rightarrow> ('c, 'w) StateSampler result" where
  "record_sample s state w clocktime =
     (let s1 = s\<lparr>sample_count := sample_count s @ [count s]\<rparr>;
          s2 = (if do_sample_time s1 then s1\<lparr>sample_time := sample_time s1 @ [time s1]\<rparr> else s1);
          s3 = s2\<lparr>sample_clocktime := sample_clocktime s2 @ [clocktime]\<rparr>;
          s4 = (if do_sample_trajectory s3
                then s3\<lparr>sample_trajectory := sample_trajectory s3 @ [configuration state]\<rparr>
                else s3)
      in case push_back_samples (functions' s4) w (samplers s4) of
           Throws e \<Rightarrow> Throws e
         | Returns m \<Rightarrow> Returns (s4\<lparr>samplers := m\<rparr>))"

definition set_next_sample ::
  "('c, 'w) StateSampler \<Rightarrow> ('c, 'w) StateSampler result option" where
  "set_next_sample s =
     (if sample_mode s = BY_TIME then
        (case sample_at s (int (length (sample_time s))) of
           None \<Rightarrow> None
         | Some (Throws e) \<Rightarrow> Some (Throws e)
         | Some (Returns (v, g)) \<Rightarrow>
             if v \<le> time s
             then Some (Throws (runtime_error
               ''Error: state sampling period parameter error, next_sample_time <= current time''))
             else Some (Returns (s\<lparr>next_sample_time := v, random_number_generator := g\<rparr>)))
      else
        (case sample_at s (int (length (sample_count s))) of
           None \<Rightarrow> None
         | Some (Throws e) \<Rightarrow> Some (Throws e)
         | Some (Returns (v, g)) \<Rightarrow>
             if to_CountType (std_round v) \<le> count s
             then Some (Throws (runtime_error
               ''Error: state sampling period parameter error, next_sample_count <= current count''))
             else Some (Returns (s\<lparr>next_sample_count := to_CountType (std_round v),
                                    random_number_generator := g\<rparr>))))"

definition sample_data ::
  "('c, 'w) StateSampler \<Rightarrow> 'c State \<Rightarrow> 'w \<Rightarrow> real \<Rightarrow> ('c, 'w) StateSampler result option"
where
  "sample_data s state w clocktime =
     (case record_sample s state w clocktime of
        Throws e \<Rightarrow> Some (Throws e)
      | Returns s1 \<Rightarrow> set_next_sample s1)"

text \<open>\<^verbatim>\<open>sample_data_by_count_if_due\<close> and \<^verbatim>\<open>sample_data_by_time_if_due\<close>.\<close>

definition sample_data_by_count_if_due ::
  "('c, 'w) StateSampler \<Rightarrow> 'c State \<Rightarrow> 'w \<Rightarrow> real \<Rightarrow> ('c, 'w) StateSampler result option"
where
  "sample_data_by_count_if_due s state w clocktime =
     (if sample_mode s \<noteq> BY_TIME \<and> count s = next_sample_count s
      then sample_data s state w clocktime
      else Some (Returns s))"

definition sample_data_by_time_if_due ::
  "('c, 'w) StateSampler \<Rightarrow> 'c State \<Rightarrow> 'w \<Rightarrow> real \<Rightarrow> real \<Rightarrow> ('c, 'w) StateSampler result option"
where
  "sample_data_by_time_if_due s state w event_time clocktime =
     (if sample_mode s \<noteq> BY_TIME \<and> event_time \<ge> next_sample_time s
      then sample_data s state w clocktime
      else Some (Returns s))"

text \<open>\<open>increment_steps N\<close> is \<open>N\<close> successive calls of \<^verbatim>\<open>increment_step\<close>.\<close>

definition increment_steps :: "nat \<Rightarrow> ('c, 'w) StateSampler \<Rightarrow> ('c, 'w) StateSampler" where
  "increment_steps N s = (increment_step ^^ N) s"

text \<open>
  A sampler as the second constructor of \<^verbatim>\<open>StateSampler\<close> leaves it with its default
  arguments and no sampling function, for the given mode.
\<close>

definition example_sampler :: "SAMPLE_MODE \<Rightarrow> (unit, unit) StateSampler" where
  "example_sampler mode =
     \<lparr>random_number_generator = (\<lambda>_. 1 / 2), sample_mode = mode, sample_method = LINEAR,
      sample_begin = 0, period = 1, samples_per_period = 1, shift = 0,
      stochastic_sample_period = False, do_sample_trajectory = False, do_sample_time = False,
      functions' = [], step = 0, pass = 0, steps_per_pass = 1, count = 0, time = 0,
      n_accept = 0, n_reject = 0, next_sample_count = 0, next_sample_time = 0,
      samplers = Map.empty, sample_count = [], sample_time = [],
      sample_weight = make_Sampler [] [''0''], sample_clocktime = [], sample_trajectory = []\<rparr>"

section \<open>Requested precision\<close>

text \<open>Numbers and names as the error messages print them.\<close>

function string_of_nat :: "nat \<Rightarrow> string" where
  "string_of_nat n =
     (if n < 10 then [''0123456789'' ! n]
      else string_of_nat (n div 10) @ [''0123456789'' ! (n mod 10)])"
  by pat_completeness auto
termination
  by (relation "measure id") auto

definition to_string :: "int \<Rightarrow> string" where
  "to_string i = (if i < 0 then CHR ''-'' # string_of_nat (nat (- i)) else string_of_nat (nat i))"

definition quoted :: "string \<Rightarrow> string" where
  "quoted s = [CHR 0x27] @ s @ [CHR 0x27]"

text \<open>
  \<^verbatim>\<open>SamplerComponent(sampler_name, component_index, component_name)\<close> and
  \<^verbatim>\<open>RequestedPrecision\<close> with the four members the sources assign.  Their header is not
  among the sources, so the keys of a \<^verbatim>\<open>std::map<SamplerComponent, RequestedPrecision>\<close>
  are compared on all three members, the default-constructed \<^verbatim>\<open>RequestedPrecision()\<close>
  and the function \<^verbatim>\<open>RequestedPrecision::abs\<close> are parameters of the functions that use
  them.
\<close>

datatype SamplerComponent =
  SamplerComponent (sampler_name_of: string) (component_index_of: Index) (component_name_of: string)

record RequestedPrecision =
  abs_convergence_is_required :: bool
  abs_precision :: real
  rel_convergence_is_required :: bool
  rel_precision :: real

type_synonym RequestedPrecisionMap = "SamplerComponent \<rightharpoonup> RequestedPrecision"

type_synonym 'w StateSamplingFunctionMap = "string \<rightharpoonup> 'w StateSamplingFunction"

text \<open>
  \<^verbatim>\<open>set_abs_precision_by_component_index\<close>.  The map is passed by reference; the model
  returns the outcome of the call together with the map as the call leaves it.
\<close>

definition set_abs_precision_by_component_index ::
  "(real \<Rightarrow> RequestedPrecision) \<Rightarrow> RequestedPrecisionMap \<Rightarrow>
   'w StateSamplingFunctionMap \<Rightarrow> string \<Rightarrow> Index \<Rightarrow> real \<Rightarrow>
   unit result \<times> RequestedPrecisionMap" where
  "set_abs_precision_by_component_index RequestedPrecision_abs component_map sampling_functions
       sampler_name' component_index v =
     (case sampling_functions sampler_name' of
        None \<Rightarrow>
          (Throws (runtime_error
             (''Error: no sampling function with name '' @ quoted sampler_name')),
           component_map)
      | Some f \<Rightarrow>
          if unat component_index \<ge> length (component_names f)
          then (Throws (runtime_error
                  (''Error: component index '' @ to_string (sint component_index) @
                   '' is out of range for sampling function '' @ quoted sampler_name')),
                component_map)
          else (Returns (),
                emplace component_map
                  (SamplerComponent sampler_name' component_index
                     (component_names f ! unat component_index))
                  (RequestedPrecision_abs v)))"

text \<open>
  \<^verbatim>\<open>RequestedPrecisionConstructor\<close>: its constructor, \<^verbatim>\<open>component(Index)\<close>,
  \<^verbatim>\<open>precision\<close>, \<^verbatim>\<open>abs_precision\<close>, \<^verbatim>\<open>rel_precision\<close> and
  \<^verbatim>\<open>abs_and_rel_precision\<close>.  The last four loop over all entries of the map and
  assign members of each value; the methods \<^verbatim>\<open>abs_precision\<close> and \<^verbatim>\<open>rel_precision\<close>
  carry a prime, their names being those of the members.  A method that can throw returns
  the outcome and the object as the call leaves it.
\<close>

record RequestedPrecisionConstructor =
  sampler_name :: string
  sampler :: Sampler
  requested_precision :: RequestedPrecisionMap

fun emplace_components ::
  "string \<Rightarrow> RequestedPrecision \<Rightarrow> string list \<Rightarrow> Index \<Rightarrow> RequestedPrecisionMap \<Rightarrow>
   RequestedPrecisionMap" where
  "emplace_components sname dflt [] i m = m"
| "emplace_components sname dflt (component_name # rest) i m =
     emplace_components sname dflt rest (i + 1)
       (emplace m (SamplerComponent sname i component_name) dflt)"

definition make_RequestedPrecisionConstructor ::
  "RequestedPrecision \<Rightarrow> string \<Rightarrow> Sampler \<Rightarrow> RequestedPrecisionConstructor" where
  "make_RequestedPrecisionConstructor dflt sname smp =
     \<lparr>sampler_name = sname, sampler = smp,
      requested_precision =
        emplace_components sname dflt (sampler_component_names smp) 0 Map.empty\<rparr>"

definition component ::
  "RequestedPrecisionConstructor \<Rightarrow> Index \<Rightarrow> unit result \<times> RequestedPrecisionConstructor" where
  "component c component_index =
     (if unat component_index \<ge> length (sampler_component_names (sampler c))
      then (Throws (runtime_error
              (''Error constructing sampler convergence parameters: Component index '' @
               quoted (to_string (sint component_index)) @ '' out of range for sampler '' @
               quoted (sampler_name c))),
            c)
      else
        let comp = SamplerComponent (sampler_name c) component_index
                     (sampler_component_names (sampler c) ! unat component_index)
        in case map_at (requested_precision c) comp of
             Throws e \<Rightarrow> (Throws e, c)
           | Returns chosen \<Rightarrow>
               (Returns (), c\<lparr>requested_precision := emplace Map.empty comp chosen\<rparr>))"

definition for_each_value :: "('v \<Rightarrow> 'v) \<Rightarrow> ('k \<rightharpoonup> 'v) \<Rightarrow> ('k \<rightharpoonup> 'v)" where
  "for_each_value f m = (\<lambda>k. map_option f (m k))"

definition abs_precision' ::
  "RequestedPrecisionConstructor \<Rightarrow> real \<Rightarrow> RequestedPrecisionConstructor" where
  "abs_precision' c v =
     c\<lparr>requested_precision :=
         for_each_value (\<lambda>x. x\<lparr>abs_convergence_is_required := True, abs_precision := v\<rparr>)
           (requested_precision c)\<rparr>"

definition precision ::
  "RequestedPrecisionConstructor \<Rightarrow> real \<Rightarrow> RequestedPrecisionConstructor" where
  "precision c v = abs_precision' c v"

definition rel_precision' ::
  "RequestedPrecisionConstructor \<Rightarrow> real \<Rightarrow> RequestedPrecisionConstructor" where
  "rel_precision' c v =
     c\<lparr>requested_precision :=
         for_each_value (\<lambda>x. x\<lparr>rel_convergence_is_required := True, rel_precision := v\<rparr>)
           (requested_precision c)\<rparr>"

definition abs_and_rel_precision ::
  "RequestedPrecisionConstructor \<Rightarrow> real \<Rightarrow> real \<Rightarrow> RequestedPrecisionConstructor" where
  "abs_and_rel_precision c abs_value rel_value =
     c\<lparr>requested_precision :=
         for_each_value
           (\<lambda>x. x\<lparr>abs_convergence_is_required := True, abs_precision := abs_value,
                  rel_convergence_is_required := True, rel_precision := rel_value\<rparr>)
           (requested_precision c)\<rparr>"

text \<open>
  \<^verbatim>\<open>converge(samplers, sampler_name)\<close> constructs a \<^verbatim>\<open>RequestedPrecisionConstructor\<close>
  for a named sampler.
\<close>

definition converge ::
  "RequestedPrecision \<Rightarrow> (string \<rightharpoonup> Sampler) \<Rightarrow> string \<Rightarrow> RequestedPrecisionConstructor result" where
  "converge dflt samplers' sname =
     (case samplers' sname of
        None \<Rightarrow>
          Throws (runtime_error
            (''Error constructing sampler convergence parameters: '' @
             ''Did not find a sampler named '' @ quoted sname))
      | Some smp \<Rightarrow> Returns (make_RequestedPrecisionConstructor dflt sname smp))"

section \<open>\<^verbatim>\<open>FixedConfigGenerator\<close>\<close>

text \<open>
  The class holds \<^verbatim>\<open>m_configuration\<close>; \<open>FixedConfigGenerator_call\<close> is its
  \<^verbatim>\<open>operator()\<close>, which returns the configuration and the object as the call leaves it.
  \<open>generate_all\<close> is a sequence of calls, one for each pair of arguments, and gives the
  configurations returned.
\<close>

record 'c FixedConfigGenerator =
  m_configuration :: 'c

definition make_FixedConfigGenerator :: "'c \<Rightarrow> 'c FixedConfigGenerator" where
  "make_FixedConfigGenerator configuration' = \<lparr>m_configuration = configuration'\<rparr>"

definition FixedConfigGenerator_call ::
  "'c FixedConfigGenerator \<Rightarrow> 'v \<Rightarrow> 'r list \<Rightarrow> 'c \<times> 'c FixedConfigGenerator" where
  "FixedConfigGenerator_call g conditions' completed_runs = (m_configuration g, g)"

fun generate_all :: "'c FixedConfigGenerator \<Rightarrow> ('v \<times> 'r list) list \<Rightarrow> 'c list" where
  "generate_all g [] = []"
| "generate_all g ((conditions', completed_runs) # calls) =
     fst (FixedConfigGenerator_call g conditions' completed_runs) #
     generate_all (snd (FixedConfigGenerator_call g conditions' completed_runs)) calls"

section \<open>Runs of a \<^verbatim>\<open>StateSampler\<close>\<close>

text \<open>
  A run of the sampler is a sequence of calls of its methods.  \<open>run\<close> performs them in
  order and stops at the first call that does not return; \<open>counts_when_sampled\<close> gives
  the value of \<^verbatim>\<open>count\<close> at each call of \<^verbatim>\<open>sample_data\<close> of the run, in order;
  \<open>run_from_reset\<close> is \<^verbatim>\<open>reset\<close> followed by a run.
\<close>

datatype ('c, 'w) call =
    Increment_step
  | Increment_n_accept
  | Increment_n_reject
  | Set_time real
  | Sample_data "'c State" 'w real

fun apply_call ::
  "('c, 'w) StateSampler \<Rightarrow> ('c, 'w) call \<Rightarrow> ('c, 'w) StateSampler result option" where
  "apply_call s Increment_step = Some (Returns (increment_step s))"
| "apply_call s Increment_n_accept = Some (Returns (increment_n_accept s))"
| "apply_call s Increment_n_reject = Some (Returns (increment_n_reject s))"
| "apply_call s (Set_time event_time) = Some (Returns (set_time s event_time))"
| "apply_call s (Sample_data state w clocktime) = sample_data s state w clocktime"

fun run ::
  "('c, 'w) StateSampler \<Rightarrow> ('c, 'w) call list \<Rightarrow> ('c, 'w) StateSampler result option" where
  "run s [] = Some (Returns s)"
| "run s (c # cs) =
     (case apply_call s c of
        Some (Returns s') \<Rightarrow> run s' cs
      | r \<Rightarrow> r)"

fun counts_when_sampled :: "('c, 'w) StateSampler \<Rightarrow> ('c, 'w) call list \<Rightarrow> CountType list" where
  "counts_when_sampled s [] = []"
| "counts_when_sampled s (c # cs) =
     (case c of Sample_data _ _ _ \<Rightarrow> [count s] | _ \<Rightarrow> []) @
     (case apply_call s c of
        Some (Returns s') \<Rightarrow> counts_when_sampled s' cs
      | _ \<Rightarrow> [])"

definition run_from_reset ::
  "('c, 'w) StateSampler \<Rightarrow> real \<Rightarrow> ('c, 'w) call list \<Rightarrow> ('c, 'w) StateSampler result option"
where
  "run_from_reset s d cs =
     (case reset s d of
        Some (Returns s') \<Rightarrow> run s' cs
      | r \<Rightarrow> r)"

text \<open>
  The containers of a sampler are aligned when they all have the length of
  \<^verbatim>\<open>sample_count\<close>; a sampler is well keyed when its functions have pairwise distinct
  names and \<^verbatim>\<open>samplers\<close> has exactly these names as keys.
\<close>

definition aligned :: "('c, 'w) StateSampler \<Rightarrow> bool" where
  "aligned s \<longleftrightarrow>
     length (sample_clocktime s) = length (sample_count s) \<and>
     (\<forall>n smp. samplers s n = Some smp \<longrightarrow> n_samples smp = length (sample_count s)) \<and>
     (do_sample_time s \<longrightarrow> length (sample_time s) = length (sample_count s)) \<and>
     (do_sample_trajectory s \<longrightarrow> length (sample_trajectory s) = length (sample_count s))"

definition well_keyed :: "('c, 'w) StateSampler \<Rightarrow> bool" where
  "well_keyed s \<longleftrightarrow>
     distinct (map name (functions' s)) \<and> dom (samplers s) = name ` set (functions' s)"

text \<open>Observers of an outcome and of the samplers, and the objects of the examples.\<close>

definition returned :: "'a result option \<Rightarrow> 'a option" where
  "returned r = (case r of Some (Returns x) \<Rightarrow> Some x | _ \<Rightarrow> None)"

definition n_samples_of :: "('c, 'w) StateSampler \<Rightarrow> string \<Rightarrow> nat option" where
  "n_samples_of s n = map_option n_samples (samplers s n)"

definition example_function :: "string \<Rightarrow> real \<Rightarrow> unit StateSamplingFunction" where
  "example_function nm v =
     \<lparr>name = nm, description = [], shape = [], component_names = [''0''],
      func = (\<lambda>_. [Finite v])\<rparr>"

definition example_state :: "unit State" where
  "example_state = \<lparr>configuration = (), conditions = Map.empty, properties = Map.empty\<rparr>"

definition duplicate_sampler :: "(unit, unit) StateSampler" where
  "duplicate_sampler =
     (example_sampler BY_PASS)\<lparr>functions' := [example_function ''a'' 1, example_function ''a'' 2]\<rparr>"

definition single_sampler :: "(unit, unit) StateSampler" where
  "single_sampler =
     (example_sampler BY_PASS)\<lparr>functions' := [example_function ''a'' 1], do_sample_time := True\<rparr>"

definition single_sampler_reset :: "(unit, unit) StateSampler" where
  "single_sampler_reset = single_sampler\<lparr>samplers := [''a'' \<mapsto> make_Sampler [] [''0'']]\<rparr>"

definition single_sampler_final :: "(unit, unit) StateSampler" where
  "single_sampler_final =
     single_sampler\<lparr>pass := 1, count := 1, next_sample_count := 2,
       samplers := [''a'' \<mapsto> (make_Sampler [] [''0''])\<lparr>sampler_values := [[Finite 1], [Finite 1]]\<rparr>],
       sample_count := [0, 1], sample_time := [0, 0], sample_clocktime := [5, 6]\<rparr>"

definition by_time_sampler :: "(unit, unit) StateSampler" where
  "by_time_sampler = (example_sampler BY_TIME)\<lparr>sample_begin := 1, next_sample_time := 1\<rparr>"




text \<open>
  More samplers for the examples, each as \<^verbatim>\<open>reset\<close> leaves it: one whose function
  returns two numbers for one component name, one with a stochastic period and a negative
  rate, one with period \<open>0.4\<close>, and one with logarithmic spacing of period 10.
\<close>

definition mismatched_function :: "unit StateSamplingFunction" where
  "mismatched_function =
     \<lparr>name = ''a'', description = [], shape = [], component_names = [''0''],
      func = (\<lambda>_. [Finite 1, Finite 2])\<rparr>"

definition mismatched_sampler :: "(unit, unit) StateSampler" where
  "mismatched_sampler =
     (example_sampler BY_PASS)\<lparr>functions' := [mismatched_function],
        samplers := [''a'' \<mapsto> make_Sampler [] [''0'']]\<rparr>"

definition never_due_sampler :: "(unit, unit) StateSampler" where
  "never_due_sampler =
     (example_sampler BY_PASS)\<lparr>samples_per_period := - 1, stochastic_sample_period := True\<rparr>"

definition violating_sampler :: "(unit, unit) StateSampler" where
  "violating_sampler = single_sampler_reset\<lparr>period := 4 / 10\<rparr>"



section \<open>\<^verbatim>\<open>make_analysis\<close>\<close>

text \<open>
  A \<^verbatim>\<open>ResultsAnalysisFunction\<close> is a named function of the run data and the results
  that returns a vector or throws.  \<^verbatim>\<open>analysis_functions\<close> is a \<^verbatim>\<open>std::map\<close> from
  strings to such functions; the loop of \<^verbatim>\<open>make_analysis\<close> visits its entries in the
  order of the keys, and the model takes the entries as the list of pairs in that order.
  The result is the map \<^verbatim>\<open>analysis\<close> together with the lines written to
  \<^verbatim>\<open>CASM::err_log()\<close>; an exception that the handler does not catch leaves the function.
\<close>

type_synonym ('rd, 'res) ResultsAnalysisFunction =
  "('rd \<Rightarrow> 'res \<Rightarrow> VectorXd result) named_function"

fun make_analysis_loop ::
  "'rd \<Rightarrow> 'res \<Rightarrow> (string \<times> ('rd, 'res) ResultsAnalysisFunction) list \<Rightarrow>
   (string \<rightharpoonup> VectorXd) \<Rightarrow> string list \<Rightarrow> ((string \<rightharpoonup> VectorXd) \<times> string list) result"
where
  "make_analysis_loop run_data results [] analysis err_log = Returns (analysis, err_log)"
| "make_analysis_loop run_data results ((key, f) # rest) analysis err_log =
     (case func f run_data results of
        Returns v \<Rightarrow>
          make_analysis_loop run_data results rest (emplace analysis (name f) v) err_log
      | Throws e \<Rightarrow>
          if is_std_exception e
          then make_analysis_loop run_data results rest
                 (emplace analysis (name f)
                    (replicate (length (component_names f)) signaling_NaN))
                 (err_log @ [''Results analysis '' @ quoted key @ '' failed: '' @ what e])
          else Throws e)"

definition make_analysis ::
  "'rd \<Rightarrow> 'res \<Rightarrow> (string \<times> ('rd, 'res) ResultsAnalysisFunction) list \<Rightarrow>
   ((string \<rightharpoonup> VectorXd) \<times> string list) result" where
  "make_analysis run_data results analysis_functions =
     make_analysis_loop run_data results analysis_functions Map.empty []"

text \<open>
  \<open>analysis_entry\<close> is the entry the specification describes for a function: its value,
  or NaN for each component name if it throws.  \<open>throws_only_std\<close>: every function
  returns a value or throws an exception derived from \<^verbatim>\<open>std::exception\<close>.
\<close>

definition analysis_entry :: "'rd \<Rightarrow> 'res \<Rightarrow> ('rd, 'res) ResultsAnalysisFunction \<Rightarrow> VectorXd" where
  "analysis_entry run_data results f =
     (case func f run_data results of
        Returns v \<Rightarrow> v
      | Throws e \<Rightarrow> replicate (length (component_names f)) signaling_NaN)"

definition throws_only_std ::
  "'rd \<Rightarrow> 'res \<Rightarrow> (string \<times> ('rd, 'res) ResultsAnalysisFunction) list \<Rightarrow> bool" where
  "throws_only_std run_data results fs =
     list_all (\<lambda>(key, f). case func f run_data results of
                              Returns v \<Rightarrow> True | Throws e \<Rightarrow> is_std_exception e) fs"

text \<open>Analysis functions for the examples: constant outcomes, two components.\<close>

definition example_analysis :: "string \<Rightarrow> VectorXd result \<Rightarrow> (unit, unit) ResultsAnalysisFunction" where
  "example_analysis nm r =
     \<lparr>name = nm, description = [], shape = [2], component_names = [''0'', ''1''],
      func = (\<lambda>_ _. r)\<rparr>"

definition example_analysis_functions :: "(string \<times> (unit, unit) ResultsAnalysisFunction) list" where
  "example_analysis_functions =
     [(''a'', example_analysis ''a'' (Returns [Finite 1, Finite 2])),
      (''b'', example_analysis ''b'' (Throws (runtime_error ''fail'')))]"

definition colliding_analysis_functions :: "(string \<times> (unit, unit) ResultsAnalysisFunction) list" where
  "colliding_analysis_functions =
     [(''k1'', example_analysis ''x'' (Returns [Finite 1, Finite 2])),
      (''k2'', example_analysis ''x'' (Returns [Finite 3, Finite 4]))]"

text \<open>
  Objects for the examples: a \<^verbatim>\<open>RequestedPrecision\<close> and a function for
  \<^verbatim>\<open>RequestedPrecision::abs\<close>, a map with one sampling function \<open>''a''\<close> of one
  component, and a constructor for a sampler \<open>''a''\<close> with the components \<open>''x''\<close> and
  \<open>''y''\<close>, before and after \<^verbatim>\<open>component(0)\<close>.
\<close>

definition example_precision :: RequestedPrecision where
  "example_precision =
     \<lparr>abs_convergence_is_required = False, abs_precision = 0,
      rel_convergence_is_required = False, rel_precision = 0\<rparr>"

definition example_abs :: "real \<Rightarrow> RequestedPrecision" where
  "example_abs v = example_precision\<lparr>abs_convergence_is_required := True, abs_precision := v\<rparr>"

definition example_functions :: "unit StateSamplingFunctionMap" where
  "example_functions = [''a'' \<mapsto> example_function ''a'' 1]"

definition example_constructor :: RequestedPrecisionConstructor where
  "example_constructor =
     make_RequestedPrecisionConstructor example_precision ''a'' (make_Sampler [2] [''x'', ''y''])"

definition narrowed_constructor :: RequestedPrecisionConstructor where
  "narrowed_constructor =
     example_constructor\<lparr>requested_precision :=
       [SamplerComponent ''a'' 0 ''x'' \<mapsto> example_precision]\<rparr>"

section \<open>Parsing of the sampling and completion check parameters\<close>

text \<open>
  \<^verbatim>\<open>jsonParser\<close> and \<^verbatim>\<open>InputParser\<close> belong to the CASM input library
  (\<^verbatim>\<open>casm/casm_io\<close>), outside the repository.  A JSON value is a \<open>json\<close>; a path
  (\<^verbatim>\<open>fs::path\<close>) is the list of its components; \<open>find_at\<close> follows a path through
  objects, by key, and arrays, by index.  The \<open>_from_json\<close> functions read a value of a
  type and give \<open>None\<close> where \<^verbatim>\<open>from_json\<close> would throw.
\<close>

datatype json =
    jsonNull
  | jsonBool bool
  | jsonNumber real
  | jsonString string
  | jsonArray "json list"
  | jsonObject "(string \<times> json) list"

type_synonym path = "string list"

definition dquoted :: "string \<Rightarrow> string" where
  "dquoted s = [CHR 0x22] @ s @ [CHR 0x22]"

fun find_key :: "json \<Rightarrow> string \<Rightarrow> json option" where
  "find_key (jsonObject members) key = map_of members key"
| "find_key (jsonArray elements) key =
     map_option (\<lambda>i. elements ! i) (find (\<lambda>i. to_string (int i) = key) [0..<length elements])"
| "find_key _ key = None"

fun find_at :: "json \<Rightarrow> path \<Rightarrow> json option" where
  "find_at j [] = Some j"
| "find_at j (key # rest) = (case find_key j key of None \<Rightarrow> None | Some j' \<Rightarrow> find_at j' rest)"

fun string_from_json :: "json \<Rightarrow> string option" where
  "string_from_json (jsonString s) = Some s"
| "string_from_json _ = None"

fun double_from_json :: "json \<Rightarrow> real option" where
  "double_from_json (jsonNumber x) = Some x"
| "double_from_json _ = None"

fun bool_from_json :: "json \<Rightarrow> bool option" where
  "bool_from_json (jsonBool b) = Some b"
| "bool_from_json _ = None"

fun Index_from_json :: "json \<Rightarrow> Index option" where
  "Index_from_json (jsonNumber x) = (if x \<in> \<int> then Some (word_of_int \<lfloor>x\<rfloor>) else None)"
| "Index_from_json _ = None"

fun those_from_json :: "(json \<Rightarrow> 'v option) \<Rightarrow> json \<Rightarrow> 'v list option" where
  "those_from_json from_json (jsonArray elements) = those (map from_json elements)"
| "those_from_json from_json _ = None"

text \<open>
  An \<^verbatim>\<open>InputParser<T>\<close> holds the input (\<^verbatim>\<open>self\<close>), the errors recorded so far, with
  the path of each, and the value (\<^verbatim>\<open>value\<close>, here \<open>parsed_value\<close>), null until
  \<^verbatim>\<open>parse\<close> sets it.  It is modelled by what \<^verbatim>\<open>parse\<close> relies on:
  \<^verbatim>\<open>insert_error\<close> records an error; \<^verbatim>\<open>valid()\<close> holds when no error is recorded, in
  the parser or in a subparser; \<^verbatim>\<open>optional(value, option)\<close> leaves the value when the
  option is absent or null, assigns it when it can be read, and records an error when it
  cannot; \<^verbatim>\<open>require\<close> records an error also when the option is absent;
  \<^verbatim>\<open>subparse_else\<close> parses the option with the parser of another type, whose errors
  count for \<^verbatim>\<open>valid()\<close>, or takes the default when the option is absent.
\<close>

record 'a InputParser =
  self :: json
  error :: "(path \<times> string) list"
  parsed_value :: "'a option"

definition insert_error :: "'a InputParser \<Rightarrow> path \<Rightarrow> string \<Rightarrow> 'a InputParser" where
  "insert_error parser option message = parser\<lparr>error := error parser @ [(option, message)]\<rparr>"

definition valid :: "'a InputParser \<Rightarrow> bool" where
  "valid parser \<longleftrightarrow> error parser = []"

definition optional ::
  "(json \<Rightarrow> 'v option) \<Rightarrow> 'a InputParser \<Rightarrow> 'v \<Rightarrow> path \<Rightarrow> 'v \<times> 'a InputParser" where
  "optional from_json parser v option =
     (case find_at (self parser) option of
        None \<Rightarrow> (v, parser)
      | Some jsonNull \<Rightarrow> (v, parser)
      | Some j \<Rightarrow>
          (case from_json j of
             Some x \<Rightarrow> (x, parser)
           | None \<Rightarrow> (v, insert_error parser option ''Error: could not construct type from option'')))"

definition require ::
  "(json \<Rightarrow> 'v option) \<Rightarrow> 'a InputParser \<Rightarrow> path \<Rightarrow> 'v option \<times> 'a InputParser" where
  "require from_json parser option =
     (case find_at (self parser) option of
        None \<Rightarrow> (None, insert_error parser option ''Error: missing required option'')
      | Some j \<Rightarrow>
          (case from_json j of
             Some x \<Rightarrow> (Some x, parser)
           | None \<Rightarrow> (None, insert_error parser option ''Error: could not construct type from option'')))"

definition require_into ::
  "(json \<Rightarrow> 'v option) \<Rightarrow> 'a InputParser \<Rightarrow> 'v \<Rightarrow> path \<Rightarrow> 'v \<times> 'a InputParser" where
  "require_into from_json parser v option =
     (case require from_json parser option of
        (None, parser') \<Rightarrow> (v, parser')
      | (Some x, parser') \<Rightarrow> (x, parser'))"

text \<open>
  \<^verbatim>\<open>parse(InputParser<SamplingParams> &, sampling_function_names,
  time_sampling_allowed)\<close>.  The members of \<^verbatim>\<open>SamplingParams\<close> are those the function
  assigns (with the prefix \<open>params_\<close>, the names being those of the members of
  \<^verbatim>\<open>StateSampler\<close>); its header is not among the sources, so the default-constructed
  \<^verbatim>\<open>SamplingParams\<close> is a parameter.  The body is modelled in four parts, in the order
  of the source: \<open>"sample_by"\<close>; \<open>"spacing"\<close>; \<open>"begin"\<close> and \<open>"period"\<close> with the two
  checks of the period; and the rest, to the assignment of the value.
\<close>

record SamplingParams =
  params_sample_mode :: SAMPLE_MODE
  params_sample_method :: SAMPLE_METHOD
  params_begin :: real
  params_period :: real
  params_samples_per_period :: real
  params_shift :: real
  params_stochastic_sample_period :: bool
  params_sampler_names :: "string list"
  params_do_sample_trajectory :: bool
  params_do_sample_time :: bool

fun check_quantities :: "string set \<Rightarrow> string list \<Rightarrow> 'a InputParser \<Rightarrow> 'a InputParser" where
  "check_quantities sampling_function_names [] parser = parser"
| "check_quantities sampling_function_names (nm # rest) parser =
     check_quantities sampling_function_names rest
       (if nm \<notin> sampling_function_names
        then insert_error parser [''quantities'']
               (''Error: '' @ dquoted nm @ '' is not a sampling option.'')
        else parser)"

definition parse_sample_by ::
  "SamplingParams \<times> SamplingParams InputParser \<Rightarrow> string \<Rightarrow> bool \<Rightarrow>
   SamplingParams \<times> SamplingParams InputParser" where
  "parse_sample_by st sample_mode' time_sampling_allowed =
     (case st of (sampling_params, parser) \<Rightarrow>
        if sample_mode' = ''pass'' then (sampling_params\<lparr>params_sample_mode := BY_PASS\<rparr>, parser)
        else if sample_mode' = ''step''
        then (sampling_params\<lparr>params_sample_mode := BY_STEP\<rparr>, parser)
        else if time_sampling_allowed \<and> sample_mode' = ''time''
        then (sampling_params\<lparr>params_sample_mode := BY_TIME\<rparr>, parser)
        else if time_sampling_allowed
        then (sampling_params,
              insert_error parser [''sample_by'']
                (''Error: '' @ dquoted ''sample_mode'' @ '' must be one of '' @ dquoted ''pass'' @
                 '', '' @ dquoted ''step'' @ '', or '' @ dquoted ''time'' @ ''.''))
        else (sampling_params,
              insert_error parser [''sample_by'']
                (''Error: '' @ dquoted ''sample_mode'' @ '' must be one of '' @ dquoted ''pass'' @
                 '' or '' @ dquoted ''step'' @ ''.'')))"

definition parse_spacing ::
  "SamplingParams \<times> SamplingParams InputParser \<Rightarrow> SamplingParams \<times> SamplingParams InputParser"
where
  "parse_spacing st =
     (case st of (sampling_params, parser) \<Rightarrow>
        case optional string_from_json parser ''linear'' [''spacing''] of
          (sample_method', parser) \<Rightarrow>
            if sample_method' = ''linear''
            then (sampling_params\<lparr>params_sample_method := LINEAR\<rparr>, parser)
            else if sample_method' = ''log''
            then (sampling_params\<lparr>params_sample_method := LOG\<rparr>, parser)
            else (sampling_params,
                  insert_error parser [''spacing'']
                    (''Error: '' @ dquoted ''spacing'' @ '' must be one of '' @
                     dquoted ''linear'' @ '', '' @ dquoted ''log'' @ ''.'')))"

definition parse_begin_period ::
  "SamplingParams \<times> SamplingParams InputParser \<Rightarrow> SamplingParams \<times> SamplingParams InputParser"
where
  "parse_begin_period st =
     (case st of (sampling_params, parser) \<Rightarrow>
        case optional double_from_json parser 0 [''begin''] of
          (begin', parser) \<Rightarrow>
            case require_into double_from_json parser (params_period sampling_params) [''period''] of
              (period', parser) \<Rightarrow>
                let sampling_params = sampling_params\<lparr>params_begin := begin', params_period := period'\<rparr>;
                    parser =
                      (if params_sample_method sampling_params = LOG \<and>
                          params_period sampling_params \<le> 1
                       then insert_error parser [''period'']
                              (''Error: For '' @ dquoted ''spacing'' @ ''=='' @ dquoted ''log'' @
                               '', '' @ dquoted ''period'' @ '' must > 1.0.'')
                       else parser);
                    parser =
                      (if params_sample_method sampling_params = LINEAR \<and>
                          params_period sampling_params \<le> 0
                       then insert_error parser [''period'']
                              (''Error: For '' @ dquoted ''spacing'' @ ''=='' @ dquoted ''log'' @
                               '', '' @ dquoted ''period'' @ '' must > 0.0.'')
                       else parser)
                in (sampling_params, parser))"

definition parse_remaining ::
  "SamplingParams \<times> SamplingParams InputParser \<Rightarrow> string set \<Rightarrow> bool \<Rightarrow>
   SamplingParams InputParser" where
  "parse_remaining st sampling_function_names time_sampling_allowed =
     (case st of (sampling_params, parser) \<Rightarrow>
        case optional double_from_json parser 1 [''samples_per_period''] of
          (samples_per_period', parser) \<Rightarrow>
        case optional double_from_json parser 0 [''shift''] of
          (shift', parser) \<Rightarrow>
        case optional bool_from_json parser False [''stochastic_sample_period''] of
          (stochastic_sample_period', parser) \<Rightarrow>
        case optional (those_from_json string_from_json) parser
               (params_sampler_names sampling_params) [''quantities''] of
          (sampler_names', parser) \<Rightarrow>
        case optional bool_from_json (check_quantities sampling_function_names sampler_names' parser)
               (params_do_sample_trajectory sampling_params) [''sample_trajectory''] of
          (do_sample_trajectory', parser) \<Rightarrow>
            let sampling_params =
                  sampling_params\<lparr>params_samples_per_period := samples_per_period',
                    params_shift := shift',
                    params_stochastic_sample_period := stochastic_sample_period',
                    params_sampler_names := sampler_names',
                    params_do_sample_trajectory := do_sample_trajectory',
                    params_do_sample_time := time_sampling_allowed\<rparr>
            in if valid parser then parser\<lparr>parsed_value := Some sampling_params\<rparr> else parser)"

definition parse_SamplingParams ::
  "SamplingParams \<Rightarrow> SamplingParams InputParser \<Rightarrow> string set \<Rightarrow> bool \<Rightarrow>
   SamplingParams InputParser" where
  "parse_SamplingParams default_params parser sampling_function_names time_sampling_allowed =
     (case require string_from_json parser [''sample_by''] of
        (None, parser) \<Rightarrow> parser
      | (Some sample_mode', parser) \<Rightarrow>
          parse_remaining
            (parse_begin_period
               (parse_spacing
                  (parse_sample_by (default_params, parser) sample_mode' time_sampling_allowed)))
            sampling_function_names time_sampling_allowed)"

text \<open>
  \<^verbatim>\<open>parse(InputParser<CompletionCheckParams<BasicStatistics>> &, sampling_functions)\<close>
  with the functions of \<^verbatim>\<open>CompletionCheck_json_io_impl\<close>.  The member
  \<^verbatim>\<open>requested_precision\<close> of \<^verbatim>\<open>CompletionCheckParams\<close> is \<open>params_requested_precision\<close>
  here.  What the function takes from headers that are not among the sources is collected
  in \<open>collaborators\<close>: the default-constructed parameters, the default equilibration
  check, \<^verbatim>\<open>CutoffCheckParams()\<close> and its parser, and \<^verbatim>\<open>from_json\<close> for a
  \<^verbatim>\<open>RequestedPrecision\<close>.
\<close>

record BasicStatisticsCalculator =
  confidence :: real
  weighted_observations_method :: Index
  n_resamples :: Index

record ('cut, 'eq) CompletionCheckParams =
  cutoff_params :: 'cut
  equilibration_check_f :: 'eq
  calc_statistics_f :: BasicStatisticsCalculator
  params_requested_precision :: RequestedPrecisionMap
  log_spacing :: bool
  check_begin :: real
  check_period :: real
  checks_per_period :: real
  check_shift :: real

record ('cut, 'eq) collaborators =
  default_CompletionCheckParams :: "('cut, 'eq) CompletionCheckParams"
  default_equilibration_check :: 'eq
  default_CutoffCheckParams :: 'cut
  parse_CutoffCheckParams :: "json \<Rightarrow> 'cut option \<times> (path \<times> string) list"
  RequestedPrecision_from_json :: "json \<Rightarrow> RequestedPrecision"

definition subparse_else ::
  "(json \<Rightarrow> 'v option \<times> (path \<times> string) list) \<Rightarrow> 'a InputParser \<Rightarrow> path \<Rightarrow> 'v \<Rightarrow>
   ('v option \<times> bool) \<times> 'a InputParser" where
  "subparse_else parse_sub parser option dflt =
     (case find_at (self parser) option of
        None \<Rightarrow> ((Some dflt, True), parser)
      | Some j \<Rightarrow>
          (case parse_sub j of
             (v, errors) \<Rightarrow>
               ((v, errors = []),
                parser\<lparr>error := error parser @ map (\<lambda>(sub, message). (option @ sub, message)) errors\<rparr>)))"

definition parse_quantity ::
  "'a InputParser \<Rightarrow> 'w StateSamplingFunctionMap \<Rightarrow> path \<Rightarrow>
   'w StateSamplingFunction option \<times> 'a InputParser" where
  "parse_quantity parser sampling_functions option =
     (case require string_from_json parser (option @ [''quantity'']) of
        (None, parser) \<Rightarrow> (None, parser)
      | (Some quantity, parser) \<Rightarrow>
          (case sampling_functions quantity of
             None \<Rightarrow>
               (None,
                insert_error parser (option @ [quantity])
                  (''Error: '' @ dquoted quantity @ '' is not a sampling option.''))
           | Some f \<Rightarrow> (Some f, parser)))"

fun parse_component_index_loop ::
  "Index list \<Rightarrow> path \<Rightarrow> 'w StateSamplingFunction \<Rightarrow> RequestedPrecision \<Rightarrow>
   'a InputParser \<times> RequestedPrecisionMap \<Rightarrow> 'a InputParser \<times> RequestedPrecisionMap" where
  "parse_component_index_loop [] option f precision' st = st"
| "parse_component_index_loop (index # rest) option f precision' (parser, requested) =
     parse_component_index_loop rest option f precision'
       (if sint index < 0 \<or> unat index \<ge> length (component_names f)
        then (insert_error parser (option @ [''component_index''])
                (''Error: For '' @ dquoted (name f) @ '', component index '' @
                 to_string (sint index) @ '' is out of range. Valid range is [0,'' @
                 to_string (int (length (component_names f))) @ '').''),
              requested)
        else (parser,
              emplace requested
                (SamplerComponent (name f) index (component_names f ! unat index)) precision'))"

definition parse_component_index ::
  "'a InputParser \<Rightarrow> path \<Rightarrow> 'w StateSamplingFunction \<Rightarrow> RequestedPrecision \<Rightarrow>
   RequestedPrecisionMap \<Rightarrow> 'a InputParser \<times> RequestedPrecisionMap" where
  "parse_component_index parser option f precision' requested =
     (case optional (those_from_json Index_from_json) parser [] (option @ [''component_index'']) of
        (component_index, parser) \<Rightarrow>
          parse_component_index_loop component_index option f precision' (parser, requested))"

fun parse_component_name_loop ::
  "string list \<Rightarrow> path \<Rightarrow> 'w StateSamplingFunction \<Rightarrow> RequestedPrecision \<Rightarrow>
   'a InputParser \<times> RequestedPrecisionMap \<Rightarrow> 'a InputParser \<times> RequestedPrecisionMap" where
  "parse_component_name_loop [] option f precision' st = st"
| "parse_component_name_loop (nm # rest) option f precision' (parser, requested) =
     parse_component_name_loop rest option f precision'
       (case find (\<lambda>i. component_names f ! i = nm) [0..<length (component_names f)] of
          None \<Rightarrow>
            (insert_error parser (option @ [''component_name''])
               (''Error: For '' @ dquoted (name f) @ '', component name '' @ nm @
                '' is not valid.''),
             requested)
        | Some index \<Rightarrow>
            (parser, emplace requested (SamplerComponent (name f) (word_of_nat index) nm) precision'))"

definition parse_component_name ::
  "'a InputParser \<Rightarrow> path \<Rightarrow> 'w StateSamplingFunction \<Rightarrow> RequestedPrecision \<Rightarrow>
   RequestedPrecisionMap \<Rightarrow> 'a InputParser \<times> RequestedPrecisionMap" where
  "parse_component_name parser option f precision' requested =
     (case optional (those_from_json string_from_json) parser [] (option @ [''component_name'']) of
        (component_name, parser) \<Rightarrow>
          parse_component_name_loop component_name option f precision' (parser, requested))"

fun emplace_all_components ::
  "'w StateSamplingFunction \<Rightarrow> RequestedPrecision \<Rightarrow> nat list \<Rightarrow> RequestedPrecisionMap \<Rightarrow>
   RequestedPrecisionMap" where
  "emplace_all_components f precision' [] requested = requested"
| "emplace_all_components f precision' (index # rest) requested =
     emplace_all_components f precision' rest
       (emplace requested
          (SamplerComponent (name f) (word_of_nat index) (component_names f ! index)) precision')"

definition parse_components ::
  "'a InputParser \<Rightarrow> path \<Rightarrow> 'w StateSamplingFunction \<Rightarrow> RequestedPrecision \<Rightarrow>
   RequestedPrecisionMap \<Rightarrow> 'a InputParser \<times> RequestedPrecisionMap" where
  "parse_components parser option f precision' requested =
     (let has_index = (find_at (self parser) (option @ [''component_index'']) \<noteq> None);
          has_name = (find_at (self parser) (option @ [''component_name'']) \<noteq> None)
      in if has_index \<and> has_name
         then (insert_error parser option
                 (''Error: cannot specify both '' @ dquoted ''component_index'' @ '' and '' @
                  dquoted ''component_name''),
               requested)
         else if has_index then parse_component_index parser option f precision' requested
         else if has_name then parse_component_name parser option f precision' requested
         else (parser,
               emplace_all_components f precision' [0..<length (component_names f)] requested))"

fun parse_convergence_loop ::
  "(json \<Rightarrow> RequestedPrecision) \<Rightarrow> 'w StateSamplingFunctionMap \<Rightarrow> json list \<Rightarrow> nat list \<Rightarrow>
   'a InputParser \<times> RequestedPrecisionMap \<Rightarrow> 'a InputParser \<times> RequestedPrecisionMap" where
  "parse_convergence_loop from_json sampling_functions elements [] st = st"
| "parse_convergence_loop from_json sampling_functions elements (i # rest) (parser, requested) =
     parse_convergence_loop from_json sampling_functions elements rest
       (let option = [''convergence'', to_string (int i)]
        in case parse_quantity parser sampling_functions option of
             (None, parser) \<Rightarrow> (parser, requested)
           | (Some f, parser) \<Rightarrow>
               parse_components parser option f (from_json (elements ! i)) requested)"

definition parse_convergence_criteria ::
  "(json \<Rightarrow> RequestedPrecision) \<Rightarrow> 'a InputParser \<Rightarrow> 'w StateSamplingFunctionMap \<Rightarrow>
   RequestedPrecisionMap \<Rightarrow> 'a InputParser \<times> RequestedPrecisionMap" where
  "parse_convergence_criteria from_json parser sampling_functions requested =
     (case find_key (self parser) ''convergence'' of
        None \<Rightarrow> (parser, requested)
      | Some (jsonArray elements) \<Rightarrow>
          parse_convergence_loop from_json sampling_functions elements [0..<length elements]
            (parser, requested)
      | Some _ \<Rightarrow>
          (insert_error parser [''convergence'']
             (''Error: '' @ dquoted ''convergence'' @ '' must be an array''),
           requested))"

definition parse_statistics_and_cutoff ::
  "('cut, 'eq) collaborators \<Rightarrow> ('cut, 'eq) CompletionCheckParams InputParser \<Rightarrow>
   ('cut, 'eq) CompletionCheckParams \<times> ('cut, 'eq) CompletionCheckParams InputParser" where
  "parse_statistics_and_cutoff ext parser =
     (case optional double_from_json parser (95 / 100) [''confidence''] of
        (confidence', parser) \<Rightarrow>
      case optional Index_from_json parser 1 [''weighted_observations_method''] of
        (weighted_observations_method', parser) \<Rightarrow>
      case optional Index_from_json parser 10000 [''n_resamples''] of
        (n_resamples', parser) \<Rightarrow>
      case subparse_else (parse_CutoffCheckParams ext) parser [''cutoff'']
             (default_CutoffCheckParams ext) of
        ((cutoff_value, cutoff_valid), parser) \<Rightarrow>
          let completion_check_params =
                (default_CompletionCheckParams ext)
                  \<lparr>equilibration_check_f := default_equilibration_check ext,
                   calc_statistics_f :=
                     \<lparr>confidence = confidence',
                      weighted_observations_method = weighted_observations_method',
                      n_resamples = n_resamples'\<rparr>\<rparr>
          in (case (cutoff_valid, cutoff_value) of
                (True, Some cutoff) \<Rightarrow> completion_check_params\<lparr>cutoff_params := cutoff\<rparr>
              | _ \<Rightarrow> completion_check_params,
              parser))"

definition parse_convergence ::
  "('cut, 'eq) collaborators \<Rightarrow> 'w StateSamplingFunctionMap \<Rightarrow>
   ('cut, 'eq) CompletionCheckParams \<times> ('cut, 'eq) CompletionCheckParams InputParser \<Rightarrow>
   ('cut, 'eq) CompletionCheckParams \<times> ('cut, 'eq) CompletionCheckParams InputParser" where
  "parse_convergence ext sampling_functions st =
     (case st of (completion_check_params, parser) \<Rightarrow>
        case parse_convergence_criteria (RequestedPrecision_from_json ext) parser sampling_functions
               (params_requested_precision completion_check_params) of
          (parser, requested) \<Rightarrow>
            (completion_check_params\<lparr>params_requested_precision := requested\<rparr>, parser))"

definition parse_check_spacing ::
  "('cut, 'eq) CompletionCheckParams \<times> ('cut, 'eq) CompletionCheckParams InputParser \<Rightarrow>
   ('cut, 'eq) CompletionCheckParams \<times> ('cut, 'eq) CompletionCheckParams InputParser" where
  "parse_check_spacing st =
     (case st of (completion_check_params, parser) \<Rightarrow>
        case optional string_from_json parser ''linear'' [''spacing''] of
          (spacing, parser) \<Rightarrow>
            if spacing = ''linear''
            then (completion_check_params\<lparr>log_spacing := False\<rparr>, parser)
            else if spacing = ''log''
            then (completion_check_params\<lparr>log_spacing := True\<rparr>, parser)
            else (completion_check_params,
                  insert_error parser [''spacing'']
                    (''Error: '' @ dquoted ''spacing'' @ '' must be one of '' @
                     dquoted ''linear'' @ '', '' @ dquoted ''log'' @ ''.'')))"

definition parse_check_begin_period ::
  "('cut, 'eq) CompletionCheckParams \<times> ('cut, 'eq) CompletionCheckParams InputParser \<Rightarrow>
   ('cut, 'eq) CompletionCheckParams \<times> ('cut, 'eq) CompletionCheckParams InputParser" where
  "parse_check_begin_period st =
     (case st of (completion_check_params, parser) \<Rightarrow>
        case optional double_from_json parser 0 [''begin''] of
          (check_begin', parser) \<Rightarrow>
        case optional double_from_json parser 10 [''period''] of
          (check_period', parser) \<Rightarrow>
            let completion_check_params =
                  completion_check_params\<lparr>check_begin := check_begin', check_period := check_period'\<rparr>;
                parser =
                  (if log_spacing completion_check_params \<and> check_period completion_check_params \<le> 1
                   then insert_error parser [''period'']
                          (''Error: For '' @ dquoted ''spacing'' @ ''=='' @ dquoted ''log'' @
                           '', '' @ dquoted ''period'' @ '' must > 1.0.'')
                   else parser);
                parser =
                  (if log_spacing completion_check_params = False \<and>
                      check_period completion_check_params \<le> 0
                   then insert_error parser [''period'']
                          (''Error: For '' @ dquoted ''spacing'' @ ''=='' @ dquoted ''log'' @
                           '', '' @ dquoted ''period'' @ '' must > 0.0.'')
                   else parser)
            in (completion_check_params, parser))"

definition parse_check_remaining ::
  "('cut, 'eq) CompletionCheckParams \<times> ('cut, 'eq) CompletionCheckParams InputParser \<Rightarrow>
   ('cut, 'eq) CompletionCheckParams InputParser" where
  "parse_check_remaining st =
     (case st of (completion_check_params, parser) \<Rightarrow>
        case optional double_from_json parser 1 [''checks_per_period''] of
          (checks_per_period', parser) \<Rightarrow>
        case optional double_from_json parser 1 [''shift''] of
          (check_shift', parser) \<Rightarrow>
            let completion_check_params =
                  completion_check_params\<lparr>checks_per_period := checks_per_period',
                    check_shift := check_shift'\<rparr>
            in if valid parser then parser\<lparr>parsed_value := Some completion_check_params\<rparr>
               else parser)"

definition parse_CompletionCheckParams ::
  "('cut, 'eq) collaborators \<Rightarrow> ('cut, 'eq) CompletionCheckParams InputParser \<Rightarrow>
   'w StateSamplingFunctionMap \<Rightarrow> ('cut, 'eq) CompletionCheckParams InputParser" where
  "parse_CompletionCheckParams ext parser sampling_functions =
     parse_check_remaining
       (parse_check_begin_period
          (parse_check_spacing
             (parse_convergence ext sampling_functions
                (parse_statistics_and_cutoff ext parser))))"

text \<open>
  The inputs of the claim: \<open>"period"\<close> is given as a number that is \<open>\<le> 0\<close> with linear
  spacing (\<open>"spacing"\<close> absent, null or \<open>"linear"\<close>) or \<open>\<le> 1\<close> with \<open>"spacing": "log"\<close>.
\<close>

definition period_out_of_range :: "json \<Rightarrow> bool" where
  "period_out_of_range input =
     (case find_at input [''period''] of
        Some (jsonNumber p) \<Rightarrow>
          (case find_at input [''spacing''] of
             None \<Rightarrow> p \<le> 0
           | Some jsonNull \<Rightarrow> p \<le> 0
           | Some (jsonString spacing) \<Rightarrow>
               (spacing = ''linear'' \<and> p \<le> 0) \<or> (spacing = ''log'' \<and> p \<le> 1)
           | Some _ \<Rightarrow> False)
      | _ \<Rightarrow> False)"

text \<open>A new parser of an input, and the objects of the examples.\<close>

definition make_InputParser :: "json \<Rightarrow> 'a InputParser" where
  "make_InputParser input = \<lparr>self = input, error = [], parsed_value = None\<rparr>"

definition example_SamplingParams :: SamplingParams where
  "example_SamplingParams =
     \<lparr>params_sample_mode = BY_PASS, params_sample_method = LINEAR, params_begin = 0,
      params_period = 1, params_samples_per_period = 1, params_shift = 0,
      params_stochastic_sample_period = False, params_sampler_names = [],
      params_do_sample_trajectory = False, params_do_sample_time = False\<rparr>"

definition example_collaborators :: "(unit, unit) collaborators" where
  "example_collaborators =
     \<lparr>default_CompletionCheckParams =
        \<lparr>cutoff_params = (), equilibration_check_f = (),
         calc_statistics_f =
           \<lparr>confidence = 95 / 100, weighted_observations_method = 1, n_resamples = 10000\<rparr>,
         params_requested_precision = Map.empty, log_spacing = False, check_begin = 0,
         check_period = 10, checks_per_period = 1, check_shift = 1\<rparr>,
      default_equilibration_check = (),
      default_CutoffCheckParams = (),
      parse_CutoffCheckParams = (\<lambda>_. (Some (), [])),
      RequestedPrecision_from_json = (\<lambda>_. example_precision)\<rparr>"

definition linear_period_0 :: json where
  "linear_period_0 = jsonObject [(''sample_by'', jsonString ''pass''), (''period'', jsonNumber 0)]"

definition log_period_1 :: json where
  "log_period_1 = jsonObject [(''spacing'', jsonString ''log''), (''period'', jsonNumber 1)]"

definition linear_period_10 :: json where
  "linear_period_10 = jsonObject [(''sample_by'', jsonString ''pass''), (''period'', jsonNumber 10)]"

section \<open>Properties of the counters\<close>

lemma divmod_step_wrap:
  fixes S :: int
  assumes "1 \<le> S" "n mod S + 1 = S"
  shows "(n + 1) mod S = 0 \<and> (n + 1) div S = n div S + 1"
proof -
  have a: "S * (n div S) + n mod S = n" by simp
  have "n + 1 = S * (n div S) + S" using a assms(2) by linarith
  then have "n + 1 = S * (n div S + 1) + 0" by (simp add: algebra_simps)
  then show ?thesis
    using assms(1) int_div_pos_eq [of "n + 1" S "n div S + 1" 0]
      int_mod_pos_eq [of "n + 1" S "n div S + 1" 0] by simp
qed

lemma divmod_step_stay:
  fixes S :: int
  assumes "1 \<le> S" "n mod S + 1 \<noteq> S"
  shows "(n + 1) mod S = n mod S + 1 \<and> (n + 1) div S = n div S"
proof -
  have r: "0 \<le> n mod S" "n mod S < S" using assms(1) by simp_all
  have "n + 1 = S * (n div S) + (n mod S + 1)"
    using mult_div_mod_eq [of S n] by (simp add: algebra_simps)
  then show ?thesis
    using assms r int_div_pos_eq [of "n + 1" S "n div S" "n mod S + 1"]
      int_mod_pos_eq [of "n + 1" S "n div S" "n mod S + 1"] by simp
qed

lemma increment_steps_counters:
  assumes "1 \<le> steps_per_pass s" "step s = 0" "pass s = 0" "count s = 0"
  shows "sample_mode (increment_steps N s) = sample_mode s \<and>
         steps_per_pass (increment_steps N s) = steps_per_pass s \<and>
         step (increment_steps N s) = int N mod steps_per_pass s \<and>
         pass (increment_steps N s) = int N div steps_per_pass s \<and>
         count (increment_steps N s) =
           (if sample_mode s = BY_STEP then int N else int N div steps_per_pass s)"
proof (induction N)
  case 0
  then show ?case using assms by (simp add: increment_steps_def)
next
  case (Suc N)
  let ?t = "increment_steps N s"
  have unfold: "increment_steps (Suc N) s = increment_step ?t"
    by (simp add: increment_steps_def)
  show ?case
  proof (cases "int N mod steps_per_pass s + 1 = steps_per_pass s")
    case True
    from divmod_step_wrap [OF assms(1) True] Suc True show ?thesis
      unfolding unfold by (simp add: increment_step_def Let_def add.commute)
  next
    case False
    from divmod_step_stay [OF assms(1) False] Suc False show ?thesis
      unfolding unfold by (simp add: increment_step_def Let_def add.commute)
  qed
qed

text \<open>
  No counter leaves the range from \<open>0\<close> to the number of steps taken, so for fewer than
  \<open>2^63\<close> steps the unbounded integers of the model are the values of the \<^verbatim>\<open>long\<close>
  counters.
\<close>

lemma increment_step_bounds:
  assumes "1 \<le> steps_per_pass s" "step s = 0" "pass s = 0" "count s = 0"
  shows "0 \<le> step (increment_steps N s) \<and> step (increment_steps N s) \<le> int N \<and>
         0 \<le> pass (increment_steps N s) \<and> pass (increment_steps N s) \<le> int N \<and>
         0 \<le> count (increment_steps N s) \<and> count (increment_steps N s) \<le> int N"
proof -
  have m: "0 \<le> int N mod steps_per_pass s" "int N mod steps_per_pass s \<le> int N"
    using assms(1) by (simp_all add: zmod_le_nonneg_dividend)
  have d: "0 \<le> int N div steps_per_pass s" "int N div steps_per_pass s \<le> int N"
    using assms(1) zdiv_mono2 [of "int N" 1 "steps_per_pass s"]
    by (simp_all add: pos_imp_zdiv_nonneg_iff)
  show ?thesis
    using increment_steps_counters [OF assms, of N] m d by simp
qed

lemma reset_counters:
  assumes "reset s0 d = Some (Returns s)"
  shows "step s = 0 \<and> pass s = 0 \<and> count s = 0 \<and> steps_per_pass s = to_CountType d \<and>
         sample_mode s = sample_mode s0"
  using assms
  by (auto simp: reset_def Let_def split: if_splits option.splits result.splits prod.splits)

lemma reset_example:
  "reset (example_sampler mode) 3 = Some (Returns ((example_sampler mode)\<lparr>steps_per_pass := 3\<rparr>))"
  by (cases mode)
     (simp_all add: reset_def example_sampler_def sample_at_def Let_def to_CountType_def
        std_round_def clear_def make_Sampler_def)

text \<open>
  C3.  For a sampler that \<^verbatim>\<open>reset\<close> has left with \<^verbatim>\<open>steps_per_pass\<close> = \<open>S \<ge> 1\<close> (and
  \<^verbatim>\<open>step\<close> = \<^verbatim>\<open>pass\<close> = \<^verbatim>\<open>count\<close> = 0), after \<open>N\<close> calls of \<^verbatim>\<open>increment_step\<close> the
  step is \<open>N mod S\<close>, the pass is \<open>N div S\<close>, and the count is \<open>N\<close> when sampling by step
  and \<open>N div S\<close> otherwise.
\<close>

theorem increment_step_N_times:
  assumes "reset s0 d = Some (Returns s)" and "1 \<le> steps_per_pass s"
  shows "step (increment_steps N s) = int N mod steps_per_pass s \<and>
         pass (increment_steps N s) = int N div steps_per_pass s \<and>
         count (increment_steps N s) =
           (if sample_mode s = BY_STEP then int N else int N div steps_per_pass s)"
  using increment_steps_counters [of s N] reset_counters [OF assms(1)] assms(2) by simp

theorem increment_step_N_times_witness:
  "reset (example_sampler BY_PASS) 3 =
     Some (Returns ((example_sampler BY_PASS)\<lparr>steps_per_pass := 3\<rparr>)) \<and>
   1 \<le> steps_per_pass ((example_sampler BY_PASS)\<lparr>steps_per_pass := 3\<rparr>) \<and>
   step (increment_steps 7 ((example_sampler BY_PASS)\<lparr>steps_per_pass := 3\<rparr>)) = 1 \<and>
   pass (increment_steps 7 ((example_sampler BY_PASS)\<lparr>steps_per_pass := 3\<rparr>)) = 2 \<and>
   count (increment_steps 7 ((example_sampler BY_PASS)\<lparr>steps_per_pass := 3\<rparr>)) = 2"
proof -
  have r: "reset (example_sampler BY_PASS) 3 =
             Some (Returns ((example_sampler BY_PASS)\<lparr>steps_per_pass := 3\<rparr>))"
    by (rule reset_example)
  have p: "1 \<le> steps_per_pass ((example_sampler BY_PASS)\<lparr>steps_per_pass := 3\<rparr>)" by simp
  show ?thesis
    using r p increment_step_N_times [OF r p, of 7] by (simp add: example_sampler_def)
qed

section \<open>Properties of \<^verbatim>\<open>FixedConfigGenerator\<close> and \<^verbatim>\<open>RequestedPrecisionConstructor\<close>\<close>

lemma generate_all_fixed:
  "generate_all g calls = replicate (length calls) (m_configuration g)"
  by (induction calls arbitrary: g) (auto simp: FixedConfigGenerator_call_def)

text \<open>
  C9.  A call of a \<^verbatim>\<open>FixedConfigGenerator\<close> returns the configuration it was constructed
  with, whatever the conditions and the completed runs, and leaves the generator as it
  was; so does every call of a sequence of calls.
\<close>

theorem FixedConfigGenerator_returns_configuration:
  "FixedConfigGenerator_call (make_FixedConfigGenerator c) conditions' completed_runs =
     (c, make_FixedConfigGenerator c) \<and>
   generate_all (make_FixedConfigGenerator c) calls = replicate (length calls) c"
  by (simp add: generate_all_fixed)
     (simp add: FixedConfigGenerator_call_def make_FixedConfigGenerator_def)

text \<open>
  C10.  \<^verbatim>\<open>precision(v)\<close> gives the object that \<^verbatim>\<open>abs_precision(v)\<close> gives: the same
  sampler and name, and for every component \<open>k\<close> the entry of the map, if there is one,
  with \<^verbatim>\<open>abs_convergence_is_required\<close> set, \<^verbatim>\<open>abs_precision\<close> = \<open>v\<close> and the two
  \<^verbatim>\<open>rel_\<close> members as they were; no entry is added or removed.
\<close>

theorem precision_is_abs_precision:
  "precision c v = abs_precision' c v \<and>
   sampler_name (precision c v) = sampler_name c \<and>
   sampler (precision c v) = sampler c \<and>
   requested_precision (precision c v) k =
     map_option
       (\<lambda>x. \<lparr>abs_convergence_is_required = True, abs_precision = v,
             rel_convergence_is_required = rel_convergence_is_required x,
             rel_precision = rel_precision x\<rparr>)
       (requested_precision c k)"
  by (cases "requested_precision c k")
     (simp_all add: precision_def abs_precision'_def for_each_value_def)

section \<open>Properties of sampling\<close>

lemma push_back_samples_distinct:
  assumes "distinct (map name fs)" "push_back_samples fs w m = Returns m'"
  shows "dom m' = dom m \<and>
         (\<forall>n smp'. m' n = Some smp' \<longrightarrow>
            (\<exists>smp. m n = Some smp \<and>
               n_samples smp' = (if n \<in> name ` set fs then Suc (n_samples smp) else n_samples smp)))"
  using assms
proof (induction fs arbitrary: m)
  case Nil
  then show ?case by simp
next
  case (Cons f fs)
  from Cons.prems(2) obtain smp where a: "m (name f) = Some smp"
    by (cases "m (name f)") (simp_all add: map_at_def)
  from Cons.prems(2) a obtain smp1 where b: "push_back smp (func f w) = Returns smp1"
    by (cases "push_back smp (func f w)") (simp_all add: map_at_def)
  from Cons.prems(2) a b have c: "push_back_samples fs w (m(name f \<mapsto> smp1)) = Returns m'"
    by (simp add: map_at_def)
  from b have n1: "n_samples smp1 = Suc (n_samples smp)"
    by (auto simp: push_back_def n_samples_def split: if_splits)
  from Cons.prems(1) have d: "distinct (map name fs)" and nf: "name f \<notin> name ` set fs" by auto
  note ih = Cons.IH [OF d c]
  from ih have ih1: "dom m' = dom (m(name f \<mapsto> smp1))" by (rule conjunct1)
  from ih have ih2: "\<forall>n smp'. m' n = Some smp' \<longrightarrow>
            (\<exists>smp. (m(name f \<mapsto> smp1)) n = Some smp \<and>
               n_samples smp' = (if n \<in> name ` set fs then Suc (n_samples smp) else n_samples smp))"
    by (rule conjunct2)
  have dom_eq: "dom m' = dom m"
  proof -
    from ih1 have "dom m' = insert (name f) (dom m)" by simp
    moreover have "name f \<in> dom m" using a by (rule domI)
    ultimately show ?thesis by (simp add: insert_absorb)
  qed
  have rows: "\<exists>smp. m n = Some smp \<and>
            n_samples smp' = (if n \<in> name ` set (f # fs) then Suc (n_samples smp) else n_samples smp)"
    if h: "m' n = Some smp'" for n smp'
  proof -
    from ih2 h have "\<exists>smp. (m(name f \<mapsto> smp1)) n = Some smp \<and>
               n_samples smp' = (if n \<in> name ` set fs then Suc (n_samples smp) else n_samples smp)"
      by simp
    then obtain smp0 where e: "(m(name f \<mapsto> smp1)) n = Some smp0"
      and g: "n_samples smp' = (if n \<in> name ` set fs then Suc (n_samples smp0) else n_samples smp0)"
      by auto
    show ?thesis
    proof (cases "n = name f")
      case True
      with e have eq: "smp0 = smp1" by simp
      from True nf have "n \<notin> name ` set fs" by simp
      with g have "n_samples smp' = n_samples smp1" by (simp add: eq)
      with n1 have "n_samples smp' = Suc (n_samples smp)" by simp
      moreover have "n \<in> name ` set (f # fs)" using True by simp
      ultimately show ?thesis using a True by simp
    next
      case False
      with e have mn: "m n = Some smp0" by simp
      have "n \<in> name ` set (f # fs) \<longleftrightarrow> n \<in> name ` set fs" using False by auto
      with g mn show ?thesis by simp
    qed
  qed
  show ?case using dom_eq rows by simp
qed

lemma record_sample_eq:
  "record_sample s state w clocktime =
     (case push_back_samples (functions' s) w (samplers s) of
        Throws e \<Rightarrow> Throws e
      | Returns m \<Rightarrow>
          Returns (s\<lparr>sample_count := sample_count s @ [count s],
                     sample_time :=
                       (if do_sample_time s then sample_time s @ [time s] else sample_time s),
                     sample_clocktime := sample_clocktime s @ [clocktime],
                     sample_trajectory :=
                       (if do_sample_trajectory s
                        then sample_trajectory s @ [configuration state]
                        else sample_trajectory s),
                     samplers := m\<rparr>))"
  by (cases "do_sample_time s"; cases "do_sample_trajectory s")
     (simp_all add: record_sample_def split: result.splits)

lemma record_sample_aligned:
  assumes "well_keyed s" "aligned s" "record_sample s state w clocktime = Returns s'"
  shows "well_keyed s' \<and> aligned s' \<and> sample_count s' = sample_count s @ [count s] \<and>
         count s' = count s"
proof -
  from assms(3) obtain m where
    pb: "push_back_samples (functions' s) w (samplers s) = Returns m"
    unfolding record_sample_eq by (cases "push_back_samples (functions' s) w (samplers s)") simp_all
  from assms(3) have s': "s' = s\<lparr>sample_count := sample_count s @ [count s],
                     sample_time :=
                       (if do_sample_time s then sample_time s @ [time s] else sample_time s),
                     sample_clocktime := sample_clocktime s @ [clocktime],
                     sample_trajectory :=
                       (if do_sample_trajectory s
                        then sample_trajectory s @ [configuration state]
                        else sample_trajectory s),
                     samplers := m\<rparr>"
    unfolding record_sample_eq pb by simp
  from assms(1) have dist: "distinct (map name (functions' s))"
    and keys: "dom (samplers s) = name ` set (functions' s)"
    by (simp_all add: well_keyed_def)
  note pbs = push_back_samples_distinct [OF dist pb]
  have f1: "functions' s' = functions' s" and f2: "samplers s' = m" and
    f3: "sample_count s' = sample_count s @ [count s]" and
    f4: "sample_clocktime s' = sample_clocktime s @ [clocktime]" and
    f5: "do_sample_time s' = do_sample_time s" and
    f6: "do_sample_trajectory s' = do_sample_trajectory s" and
    f7: "sample_time s' = (if do_sample_time s then sample_time s @ [time s] else sample_time s)" and
    f8: "sample_trajectory s' =
           (if do_sample_trajectory s then sample_trajectory s @ [configuration state]
            else sample_trajectory s)" and
    f9: "count s' = count s"
    by (simp_all add: s')
  from pbs have dm: "dom m = dom (samplers s)" by (rule conjunct1)
  have wk: "well_keyed s'"
    using dist keys dm by (simp add: well_keyed_def f1 f2)
  have rows: "n_samples smp' = length (sample_count s')" if h: "m n = Some smp'" for n smp'
  proof -
    from pbs h have "\<exists>smp. samplers s n = Some smp \<and> n_samples smp' =
              (if n \<in> name ` set (functions' s) then Suc (n_samples smp) else n_samples smp)"
      by simp
    then obtain smp where a: "samplers s n = Some smp"
      and b: "n_samples smp' =
              (if n \<in> name ` set (functions' s) then Suc (n_samples smp) else n_samples smp)"
      by auto
    from a have "n \<in> dom (samplers s)" by (rule domI)
    with keys have "n \<in> name ` set (functions' s)" by simp
    moreover from a assms(2) have "n_samples smp = length (sample_count s)"
      by (simp add: aligned_def)
    ultimately show ?thesis using b by (simp add: f3)
  qed
  from assms(2) have a1: "length (sample_clocktime s) = length (sample_count s)"
    and a3: "do_sample_time s \<longrightarrow> length (sample_time s) = length (sample_count s)"
    and a4: "do_sample_trajectory s \<longrightarrow> length (sample_trajectory s) = length (sample_count s)"
    by (simp_all add: aligned_def)
  have al: "aligned s'"
    unfolding aligned_def f2 f3 f4 f5 f6 f7 f8
    using a1 a3 a4 rows [unfolded f3] by simp
  show ?thesis using wk al f3 f9 by simp
qed

lemma set_next_sample_keeps:
  assumes "set_next_sample s = Some (Returns s')"
  shows "functions' s' = functions' s \<and> samplers s' = samplers s \<and>
         sample_count s' = sample_count s \<and> sample_clocktime s' = sample_clocktime s \<and>
         sample_time s' = sample_time s \<and> sample_trajectory s' = sample_trajectory s \<and>
         do_sample_time s' = do_sample_time s \<and> do_sample_trajectory s' = do_sample_trajectory s"
  using assms
  by (auto simp: set_next_sample_def split: if_splits option.splits result.splits prod.splits)

lemma sample_data_aligned:
  assumes "well_keyed s" "aligned s" "sample_data s state w clocktime = Some (Returns s')"
  shows "well_keyed s' \<and> aligned s' \<and> sample_count s' = sample_count s @ [count s]"
proof -
  from assms(3) obtain s1 where r: "record_sample s state w clocktime = Returns s1"
    and n: "set_next_sample s1 = Some (Returns s')"
    by (auto simp: sample_data_def split: result.splits)
  from record_sample_aligned [OF assms(1,2) r] set_next_sample_keeps [OF n]
  show ?thesis by (simp add: well_keyed_def aligned_def)
qed

lemma emplace_samplers_dom:
  "dom (fold (\<lambda>f m. emplace m (name f) (make_Sampler (shape f) (component_names f))) fs m) =
     dom m \<union> name ` set fs"
proof (induction fs arbitrary: m)
  case Nil
  then show ?case by simp
next
  case (Cons f fs)
  have "dom (emplace m (name f) (make_Sampler (shape f) (component_names f))) =
          insert (name f) (dom m)"
    by (cases "m (name f)") (auto simp: emplace_def)
  with Cons.IH show ?case by simp
qed

lemma emplace_samplers_rows:
  assumes "\<forall>n smp. m n = Some smp \<longrightarrow> n_samples smp = 0"
  shows "\<forall>n smp.
           fold (\<lambda>f m. emplace m (name f) (make_Sampler (shape f) (component_names f))) fs m n
             = Some smp \<longrightarrow> n_samples smp = 0"
  using assms
proof (induction fs arbitrary: m)
  case Nil
  then show ?case by simp
next
  case (Cons f fs)
  have "\<forall>n smp. emplace m (name f) (make_Sampler (shape f) (component_names f)) n = Some smp
          \<longrightarrow> n_samples smp = 0"
    using Cons.prems
    by (cases "m (name f)") (auto simp: emplace_def n_samples_def make_Sampler_def)
  from Cons.IH [OF this] show ?case by simp
qed

lemma increment_step_frame:
  "functions' (increment_step s) = functions' s \<and>
   samplers (increment_step s) = samplers s \<and>
   sample_count (increment_step s) = sample_count s \<and>
   sample_clocktime (increment_step s) = sample_clocktime s \<and>
   sample_time (increment_step s) = sample_time s \<and>
   sample_trajectory (increment_step s) = sample_trajectory s \<and>
   do_sample_time (increment_step s) = do_sample_time s \<and>
   do_sample_trajectory (increment_step s) = do_sample_trajectory s"
  by (cases "sample_mode s = BY_STEP"; cases "step s + 1 = steps_per_pass s")
     (simp_all add: increment_step_def Let_def)

lemma reset_aligned:
  assumes "distinct (map name (functions' s0))" "reset s0 d = Some (Returns s)"
  shows "well_keyed s \<and> aligned s \<and> sample_count s = []"
proof -
  let ?m = "fold (\<lambda>f m. emplace m (name f) (make_Sampler (shape f) (component_names f)))
              (functions' s0) Map.empty"
  from assms(2) have f: "functions' s = functions' s0" "samplers s = ?m" "sample_count s = []"
    "sample_time s = []" "sample_clocktime s = []" "sample_trajectory s = []"
    by (auto simp: reset_def Let_def split: if_splits option.splits result.splits prod.splits)
  have d: "dom ?m = name ` set (functions' s0)"
    by (simp add: emplace_samplers_dom)
  have z: "\<forall>n smp. ?m n = Some smp \<longrightarrow> n_samples smp = 0"
    by (rule emplace_samplers_rows) simp
  show ?thesis using assms(1) d z by (simp add: well_keyed_def aligned_def f)
qed

lemma apply_call_aligned:
  assumes "well_keyed s" "aligned s" "apply_call s c = Some (Returns s')"
  shows "well_keyed s' \<and> aligned s' \<and>
         sample_count s' = sample_count s @ (case c of Sample_data _ _ _ \<Rightarrow> [count s] | _ \<Rightarrow> [])"
proof (cases c)
  case Increment_step
  with assms increment_step_frame [of s] show ?thesis
    by (clarsimp simp: well_keyed_def aligned_def)
next
  case Increment_n_accept
  with assms show ?thesis by (clarsimp simp: well_keyed_def aligned_def increment_n_accept_def)
next
  case Increment_n_reject
  with assms show ?thesis by (clarsimp simp: well_keyed_def aligned_def increment_n_reject_def)
next
  case (Set_time t)
  with assms show ?thesis by (clarsimp simp: well_keyed_def aligned_def set_time_def)
next
  case (Sample_data st w clk)
  with assms(3) have "sample_data s st w clk = Some (Returns s')" by simp
  from sample_data_aligned [OF assms(1,2) this] Sample_data show ?thesis by simp
qed

lemma run_aligned:
  assumes "well_keyed s" "aligned s" "run s calls = Some (Returns s')"
  shows "well_keyed s' \<and> aligned s' \<and>
         sample_count s' = sample_count s @ counts_when_sampled s calls"
  using assms
proof (induction calls arbitrary: s)
  case Nil
  then show ?case by simp
next
  case (Cons c cs)
  from Cons.prems(3) obtain s1 where a: "apply_call s c = Some (Returns s1)"
    and r: "run s1 cs = Some (Returns s')"
    by (cases "apply_call s c") (auto split: result.splits)
  from apply_call_aligned [OF Cons.prems(1,2) a]
  have w1: "well_keyed s1" and a1: "aligned s1"
    and c1: "sample_count s1 =
             sample_count s @ (case c of Sample_data _ _ _ \<Rightarrow> [count s] | _ \<Rightarrow> [])"
    by simp_all
  from Cons.IH [OF w1 a1 r] c1 a show ?case by simp
qed

text \<open>
  C2 (as amended).  For a sampler whose sampling functions have pairwise distinct names:
  after \<^verbatim>\<open>reset\<close> and any sequence of calls of \<^verbatim>\<open>sample_data\<close> that all return
  (with calls of \<^verbatim>\<open>increment_step\<close>, \<^verbatim>\<open>increment_n_accept\<close>, \<^verbatim>\<open>increment_n_reject\<close>
  and \<^verbatim>\<open>set_time\<close> anywhere between them), \<^verbatim>\<open>sample_clocktime\<close> and every sampler
  of \<^verbatim>\<open>samplers\<close> have as many entries as \<^verbatim>\<open>sample_count\<close>, so have \<^verbatim>\<open>sample_time\<close>
  when \<^verbatim>\<open>do_sample_time\<close> and \<^verbatim>\<open>sample_trajectory\<close> when \<^verbatim>\<open>do_sample_trajectory\<close>, and
  \<^verbatim>\<open>sample_count\<close> lists the values of \<^verbatim>\<open>count\<close> at the samples in the order they were
  taken.
\<close>

theorem sample_containers_aligned:
  assumes "distinct (map name (functions' s0))"
    and "reset s0 d = Some (Returns s1)"
    and "run s1 calls = Some (Returns s)"
  shows "length (sample_clocktime s) = length (sample_count s) \<and>
         (\<forall>n smp. samplers s n = Some smp \<longrightarrow> n_samples smp = length (sample_count s)) \<and>
         (do_sample_time s \<longrightarrow> length (sample_time s) = length (sample_count s)) \<and>
         (do_sample_trajectory s \<longrightarrow> length (sample_trajectory s) = length (sample_count s)) \<and>
         sample_count s = counts_when_sampled s1 calls"
proof -
  from reset_aligned [OF assms(1,2)]
  have w: "well_keyed s1" and a: "aligned s1" and e: "sample_count s1 = []" by simp_all
  from run_aligned [OF w a assms(3)] e
  have "aligned s" and "sample_count s = counts_when_sampled s1 calls" by simp_all
  then show ?thesis by (simp add: aligned_def)
qed

lemma reset_duplicate:
  "reset duplicate_sampler 1 =
     Some (Returns (duplicate_sampler\<lparr>samplers := [''a'' \<mapsto> make_Sampler [] [''0'']]\<rparr>))"
  by (simp add: reset_def duplicate_sampler_def example_sampler_def example_function_def
        sample_at_def Let_def to_CountType_def std_round_def clear_def make_Sampler_def
        emplace_def)

text \<open>
  Without distinct names the claim fails: \<^verbatim>\<open>reset\<close> makes one sampler for two
  functions of the same name (\<^verbatim>\<open>emplace\<close> keeps the first), and each call of
  \<^verbatim>\<open>sample_data\<close> appends two rows to it.  After one sample \<^verbatim>\<open>sample_count\<close> has one
  entry and the sampler \<open>''a''\<close> two rows.
\<close>

theorem duplicate_names_counterexample:
  "map_option (\<lambda>s. (length (sample_count s), n_samples_of s ''a''))
     (returned (run_from_reset duplicate_sampler 1 [Sample_data example_state () 0])) =
   Some (1, Some 2)"
  unfolding run_from_reset_def reset_duplicate
  by (simp add: returned_def n_samples_of_def
        sample_data_def record_sample_eq set_next_sample_def sample_at_def
        duplicate_sampler_def example_sampler_def example_function_def
        map_at_def push_back_def n_components_def n_samples_def make_Sampler_def
        to_CountType_def std_round_def Let_def)

lemma reset_single: "reset single_sampler 1 = Some (Returns single_sampler_reset)"
  by (simp add: reset_def single_sampler_def single_sampler_reset_def example_sampler_def
        example_function_def sample_at_def Let_def to_CountType_def std_round_def clear_def
        make_Sampler_def emplace_def)

lemma run_single:
  "run single_sampler_reset
     [Sample_data example_state () 5, Increment_step, Sample_data example_state () 6] =
   Some (Returns single_sampler_final)"
  by (simp add: single_sampler_reset_def single_sampler_final_def single_sampler_def
        sample_data_def record_sample_eq set_next_sample_def sample_at_def increment_step_def
        example_sampler_def example_function_def
        map_at_def push_back_def n_components_def n_samples_def make_Sampler_def
        to_CountType_def std_round_def Let_def)

text \<open>
  The theorem at a sampler with one function, sampling by pass with
  \<^verbatim>\<open>steps_per_pass = 1\<close>: a sample at count 0, one step, a sample at count 1.
\<close>

theorem sample_containers_aligned_witness:
  "distinct (map name (functions' single_sampler)) \<and>
   reset single_sampler 1 = Some (Returns single_sampler_reset) \<and>
   run single_sampler_reset
     [Sample_data example_state () 5, Increment_step, Sample_data example_state () 6] =
     Some (Returns single_sampler_final) \<and>
   length (sample_clocktime single_sampler_final) = 2 \<and>
   n_samples_of single_sampler_final ''a'' = Some 2 \<and>
   length (sample_time single_sampler_final) = 2 \<and>
   sample_count single_sampler_final = [0, 1]"
proof -
  have d: "distinct (map name (functions' single_sampler))"
    by (simp add: single_sampler_def)
  note t = sample_containers_aligned [OF d reset_single run_single]
  have c: "counts_when_sampled single_sampler_reset
     [Sample_data example_state () 5, Increment_step, Sample_data example_state () 6] = [0, 1]"
    by (simp add: single_sampler_reset_def single_sampler_def
        sample_data_def record_sample_eq set_next_sample_def sample_at_def increment_step_def
        example_sampler_def example_function_def
        map_at_def push_back_def n_components_def n_samples_def make_Sampler_def
        to_CountType_def std_round_def Let_def)
  have a: "samplers single_sampler_final ''a'' =
             Some ((make_Sampler [] [''0''])\<lparr>sampler_values := [[Finite 1], [Finite 1]]\<rparr>)"
    by (simp add: single_sampler_final_def)
  have dt: "do_sample_time single_sampler_final"
    by (simp add: single_sampler_final_def single_sampler_def)
  from t c have sc: "sample_count single_sampler_final = [0, 1]" by simp
  from t a have "n_samples ((make_Sampler [] [''0''])\<lparr>sampler_values := [[Finite 1], [Finite 1]]\<rparr>) =
                 length (sample_count single_sampler_final)" by simp
  with a sc have n: "n_samples_of single_sampler_final ''a'' = Some 2"
    by (simp add: n_samples_of_def)
  from t dt sc have "length (sample_time single_sampler_final) = 2"
    and "length (sample_clocktime single_sampler_final) = 2" by simp_all
  with d reset_single run_single n sc show ?thesis by simp
qed

lemma reset_by_time:
  "reset ((example_sampler BY_TIME)\<lparr>sample_begin := 1\<rparr>) 1 = Some (Returns by_time_sampler)"
  by (simp add: reset_def by_time_sampler_def example_sampler_def sample_at_def Let_def
        to_CountType_def clear_def make_Sampler_def)

text \<open>
  C1.  The source tests \<^verbatim>\<open>sample_mode != SAMPLE_MODE::BY_TIME\<close> in
  \<^verbatim>\<open>sample_data_by_time_if_due\<close> and never assigns \<^verbatim>\<open>time\<close>.  So a sampler in mode
  \<^verbatim>\<open>BY_TIME\<close> whose sample is due (\<^verbatim>\<open>next_sample_time = 1\<close>, event time 5) takes no
  sample and keeps \<^verbatim>\<open>time = 0\<close>: the call returns the sampler as it was.  And a sampler
  in mode \<^verbatim>\<open>BY_PASS\<close> does take a sample in this call.
\<close>

theorem sample_data_by_time_if_due_at_BY_TIME:
  "sample_mode by_time_sampler = BY_TIME \<and>
   next_sample_time by_time_sampler \<le> 5 \<and>
   sample_data_by_time_if_due by_time_sampler example_state () 5 7 =
     Some (Returns by_time_sampler) \<and>
   sample_count by_time_sampler = [] \<and> time by_time_sampler = 0 \<and>
   sample_mode single_sampler_reset = BY_PASS \<and>
   map_option sample_count
     (returned (sample_data_by_time_if_due single_sampler_reset example_state () 5 7)) =
     Some [0]"
  by (simp add: sample_data_by_time_if_due_def by_time_sampler_def returned_def
        single_sampler_reset_def single_sampler_def
        sample_data_def record_sample_eq set_next_sample_def sample_at_def
        example_sampler_def example_function_def
        map_at_def push_back_def n_components_def n_samples_def make_Sampler_def
        to_CountType_def std_round_def Let_def)

section \<open>Properties of the schedule\<close>



lemma stochastic_count_step_loop_returns:
  assumes "g k < sample_rate" "\<forall>i<k. \<not> g i < sample_rate"
  shows "stochastic_count_step_loop g sample_rate dn = Some (dn + int k, \<lambda>i. g (Suc k + i))"
  using assms
proof (induction k arbitrary: g dn)
  case 0
  then show ?case
    by (subst stochastic_count_step_loop.simps) (simp add: random_real_def)
next
  case (Suc k)
  have a: "\<not> g 0 < sample_rate" using Suc.prems(2) by simp
  have b: "(\<lambda>i. g (Suc i)) k < sample_rate" using Suc.prems(1) by simp
  have c: "\<forall>i<k. \<not> (\<lambda>i. g (Suc i)) i < sample_rate" using Suc.prems(2) by simp
  from Suc.IH [OF b c, of "dn + 1"] a show ?case
    by (subst stochastic_count_step_loop.simps) (simp add: random_real_def)
qed




lemma reset_keeps_schedule:
  assumes "reset s d = Some (Returns s')"
  shows "sample_method s' = sample_method s \<and> sample_begin s' = sample_begin s \<and>
    period s' = period s \<and> samples_per_period s' = samples_per_period s \<and> shift s' = shift s \<and>
    stochastic_sample_period s' = stochastic_sample_period s \<and> sample_mode s' = sample_mode s"
  using assms
  by (auto simp: reset_def Let_def split: if_splits option.splits result.splits prod.splits)












lemma reset_mismatched:
  "reset ((example_sampler BY_PASS)\<lparr>functions' := [mismatched_function]\<rparr>) 1 =
     Some (Returns mismatched_sampler)"
  by (simp add: reset_def mismatched_sampler_def mismatched_function_def example_sampler_def
        sample_at_def Let_def to_CountType_def std_round_def clear_def make_Sampler_def
        emplace_def)

lemma reset_never_due: "reset never_due_sampler 1 = Some (Returns never_due_sampler)"
  by (simp add: reset_def never_due_sampler_def example_sampler_def
        sample_at_def Let_def to_CountType_def std_round_def clear_def make_Sampler_def)

lemma reset_violating:
  "reset (single_sampler\<lparr>period := 4 / 10\<rparr>) 1 = Some (Returns violating_sampler)"
  by (simp add: reset_def violating_sampler_def single_sampler_reset_def single_sampler_def
        example_sampler_def example_function_def
        sample_at_def Let_def to_CountType_def std_round_def clear_def make_Sampler_def
        emplace_def)





section \<open>Properties of \<^verbatim>\<open>make_analysis\<close>\<close>

text \<open>
  The entry of a name is that of the first function of this name: \<^verbatim>\<open>emplace\<close> does not
  overwrite.
\<close>

lemma make_analysis_loop_entries:
  assumes "throws_only_std run_data results fs"
  shows "\<exists>m lg. make_analysis_loop run_data results fs a l = Returns (m, lg) \<and>
           (\<forall>n. m n = (case a n of
                          Some v \<Rightarrow> Some v
                        | None \<Rightarrow> map_option (analysis_entry run_data results)
                                    (find (\<lambda>f. name f = n) (map snd fs))))"
  using assms
proof (induction fs arbitrary: a l)
  case Nil
  then show ?case by (simp split: option.splits)
next
  case (Cons kf fs)
  obtain key f where kf: "kf = (key, f)" by (cases kf)
  from Cons.prems have rest: "throws_only_std run_data results fs"
    by (simp add: throws_only_std_def)
  let ?a = "emplace a (name f) (analysis_entry run_data results f)"
  have step: "\<exists>l'. make_analysis_loop run_data results (kf # fs) a l =
                 make_analysis_loop run_data results fs ?a l'"
  proof (cases "func f run_data results")
    case (Returns v)
    then have "make_analysis_loop run_data results (kf # fs) a l =
                 make_analysis_loop run_data results fs ?a l"
      by (simp add: kf analysis_entry_def)
    then show ?thesis by (rule exI)
  next
    case (Throws e)
    with Cons.prems have "is_std_exception e" by (simp add: throws_only_std_def kf)
    with Throws have "make_analysis_loop run_data results (kf # fs) a l =
        make_analysis_loop run_data results fs ?a
          (l @ [''Results analysis '' @ quoted key @ '' failed: '' @ what e])"
      by (simp add: kf analysis_entry_def)
    then show ?thesis by (rule exI)
  qed
  then obtain l' where s: "make_analysis_loop run_data results (kf # fs) a l =
                 make_analysis_loop run_data results fs ?a l'" by auto
  from Cons.IH [OF rest, of ?a l'] obtain m lg where
    r: "make_analysis_loop run_data results fs ?a l' = Returns (m, lg)" and
    e: "\<forall>n. m n = (case ?a n of
                          Some v \<Rightarrow> Some v
                        | None \<Rightarrow> map_option (analysis_entry run_data results)
                                    (find (\<lambda>f. name f = n) (map snd fs)))" by auto
  have "m n = (case a n of
                 Some v \<Rightarrow> Some v
               | None \<Rightarrow> map_option (analysis_entry run_data results)
                           (find (\<lambda>f. name f = n) (map snd (kf # fs))))" for n
    using e [rule_format, of n]
    by (cases "a (name f)"; cases "n = name f") (auto simp: emplace_def kf split: option.splits)
  with s r show ?case by simp
qed

lemma find_by_name:
  assumes "distinct (map name gs)" "g \<in> set gs"
  shows "find (\<lambda>h. name h = name g) gs = Some g"
  using assms
proof (induction gs)
  case Nil
  then show ?case by simp
next
  case (Cons x gs)
  show ?case
  proof (cases "g = x")
    case True
    then show ?thesis by simp
  next
    case False
    with Cons.prems have m: "g \<in> set gs" by simp
    with Cons.prems(1) have "name x \<noteq> name g" by (auto simp: image_iff)
    with Cons.IH m Cons.prems(1) show ?thesis by simp
  qed
qed

lemma find_by_name_dom: "(find (\<lambda>h. name h = n) gs \<noteq> None) = (n \<in> name ` set gs)"
  by (induction gs) auto

text \<open>
  C6 (as amended).  For analysis functions with pairwise distinct names, each of which
  returns or throws a \<^verbatim>\<open>std::exception\<close>: \<^verbatim>\<open>make_analysis\<close> returns (it propagates no
  exception) a map whose keys are the names of the functions, one entry for each
  function; the entry of a function that throws is the vector of NaN of length
  \<^verbatim>\<open>component_names.size()\<close>, the entry of any other function is the value it returns.
\<close>

theorem make_analysis_entries:
  assumes "distinct (map (\<lambda>(key, f). name f) analysis_functions)"
    and "throws_only_std run_data results analysis_functions"
  shows "\<exists>analysis err_log.
           make_analysis run_data results analysis_functions = Returns (analysis, err_log) \<and>
           dom analysis = (\<lambda>(key, f). name f) ` set analysis_functions \<and>
           card (dom analysis) = length analysis_functions \<and>
           list_all
             (\<lambda>(key, f). analysis (name f) =
                Some (case func f run_data results of
                        Returns v \<Rightarrow> v
                      | Throws e \<Rightarrow> replicate (length (component_names f)) signaling_NaN))
             analysis_functions"
proof -
  let ?gs = "map snd analysis_functions"
  have names: "map (\<lambda>(key, f). name f) analysis_functions = map name ?gs"
    by (simp add: case_prod_unfold)
  with assms(1) have d: "distinct (map name ?gs)" by simp
  from make_analysis_loop_entries [OF assms(2), of Map.empty "[]"]
  obtain m lg where r: "make_analysis run_data results analysis_functions = Returns (m, lg)"
    and e: "\<And>n. m n = map_option (analysis_entry run_data results)
                         (find (\<lambda>f. name f = n) ?gs)"
    by (auto simp: make_analysis_def)
  have "dom m = name ` set ?gs"
  proof (rule set_eqI)
    fix n
    have "n \<in> dom m \<longleftrightarrow> find (\<lambda>f. name f = n) ?gs \<noteq> None"
      by (simp add: dom_def e)
    also have "\<dots> \<longleftrightarrow> n \<in> name ` set ?gs" by (rule find_by_name_dom)
    finally show "n \<in> dom m \<longleftrightarrow> n \<in> name ` set ?gs" .
  qed
  then have dm: "dom m = set (map name ?gs)" by (simp add: image_image)
  have dom1: "dom m = (\<lambda>(key, f). name f) ` set analysis_functions"
    unfolding dm by (simp add: image_image case_prod_unfold)
  have c: "card (dom m) = length analysis_functions"
    unfolding dm using distinct_card [OF d] by simp
  have "m (name f) = Some (analysis_entry run_data results f)"
    if "(key, f) \<in> set analysis_functions" for key f
  proof -
    from that have "snd (key, f) \<in> snd ` set analysis_functions" by (rule imageI)
    then have "f \<in> set ?gs" by simp
    from find_by_name [OF d this] show ?thesis by (simp add: e)
  qed
  then have l: "list_all
             (\<lambda>(key, f). m (name f) =
                Some (case func f run_data results of
                        Returns v \<Rightarrow> v
                      | Throws e \<Rightarrow> replicate (length (component_names f)) signaling_NaN))
             analysis_functions"
    by (auto simp: list_all_iff analysis_entry_def)
  from r dom1 c l show ?thesis by auto
qed

text \<open>
  Two functions under different keys of \<^verbatim>\<open>analysis_functions\<close> but with the same
  \<^verbatim>\<open>name\<close>: the result has one entry for the two functions, and the value the second
  function returns is in no entry.
\<close>

theorem colliding_names_counterexample:
  "make_analysis () () colliding_analysis_functions =
     Returns ([''x'' \<mapsto> [Finite 1, Finite 2]], []) \<and>
   length colliding_analysis_functions = 2"
  by (simp add: make_analysis_def colliding_analysis_functions_def example_analysis_def
        emplace_def)

lemma make_analysis_example:
  "make_analysis () () example_analysis_functions =
     Returns ([''a'' \<mapsto> [Finite 1, Finite 2], ''b'' \<mapsto> [signaling_NaN, signaling_NaN]],
              [''Results analysis '' @ quoted ''b'' @ '' failed: fail''])"
  by (simp add: make_analysis_def example_analysis_functions_def example_analysis_def
        emplace_def numeral_2_eq_2)

text \<open>The theorem at two functions, the second of which throws.\<close>

theorem make_analysis_entries_witness:
  "distinct (map (\<lambda>(key, f). name f) example_analysis_functions) \<and>
   throws_only_std () () example_analysis_functions \<and>
   make_analysis () () example_analysis_functions =
     Returns ([''a'' \<mapsto> [Finite 1, Finite 2], ''b'' \<mapsto> [signaling_NaN, signaling_NaN]],
              [''Results analysis '' @ quoted ''b'' @ '' failed: fail'']) \<and>
   card (dom [''a'' \<mapsto> [Finite 1, Finite 2], ''b'' \<mapsto> [signaling_NaN, signaling_NaN]]) = 2"
proof -
  have d: "distinct (map (\<lambda>(key, f). name f) example_analysis_functions)"
    by (simp add: example_analysis_functions_def example_analysis_def)
  have t: "throws_only_std () () example_analysis_functions"
    by (simp add: throws_only_std_def example_analysis_functions_def example_analysis_def)
  from make_analysis_entries [OF d t] obtain analysis err_log where
    r: "make_analysis () () example_analysis_functions = Returns (analysis, err_log)" and
    c: "card (dom analysis) = length example_analysis_functions"
    by (elim exE conjE) (rule that, assumption+)
  from r have "analysis = [''a'' \<mapsto> [Finite 1, Finite 2], ''b'' \<mapsto> [signaling_NaN, signaling_NaN]]"
    unfolding make_analysis_example by simp
  with c have "card (dom [''a'' \<mapsto> [Finite 1, Finite 2], ''b'' \<mapsto> [signaling_NaN, signaling_NaN]])
          = length example_analysis_functions" by (simp only:)
  then have "card (dom [''a'' \<mapsto> [Finite 1, Finite 2], ''b'' \<mapsto> [signaling_NaN, signaling_NaN]])
          = 2" by (simp only: example_analysis_functions_def list.size)
  with d t make_analysis_example show ?thesis by (intro conjI)
qed

section \<open>Properties of the requested precision\<close>

text \<open>
  The constructor selects every component of the sampler, so on a new constructor
  \<^verbatim>\<open>component\<close> succeeds for every index in range.
\<close>

lemma emplace_components_lookup:
  "emplace_components sname dflt names i m k =
     (case m k of
        Some v \<Rightarrow> Some v
      | None \<Rightarrow>
          if \<exists>j < length names. k = SamplerComponent sname (i + of_nat j) (names ! j)
          then Some dflt else None)"
proof (induction names arbitrary: i m)
  case Nil
  then show ?case by (simp split: option.splits)
next
  case (Cons c names)
  have ex: "(\<exists>j < length (c # names). k = SamplerComponent sname (i + of_nat j) ((c # names) ! j)) \<longleftrightarrow>
        k = SamplerComponent sname i c \<or>
        (\<exists>j < length names. k = SamplerComponent sname (i + 1 + of_nat j) (names ! j))"
    (is "?L \<longleftrightarrow> ?A \<or> ?R")
  proof
    assume ?L
    then obtain j where j: "j < length (c # names)"
      "k = SamplerComponent sname (i + of_nat j) ((c # names) ! j)" by auto
    show "?A \<or> ?R"
    proof (cases j)
      case 0
      with j show ?thesis by simp
    next
      case (Suc j')
      with j have "j' < length names" "k = SamplerComponent sname (i + 1 + of_nat j') (names ! j')"
        by (simp_all add: add.assoc)
      then show ?thesis by auto
    qed
  next
    assume "?A \<or> ?R"
    then show ?L
    proof
      assume ?A
      then have "0 < length (c # names) \<and> k = SamplerComponent sname (i + of_nat 0) ((c # names) ! 0)"
        by simp
      then show ?L by (rule exI)
    next
      assume ?R
      then obtain j where "j < length names" "k = SamplerComponent sname (i + 1 + of_nat j) (names ! j)"
        by auto
      then have "Suc j < length (c # names) \<and>
                 k = SamplerComponent sname (i + of_nat (Suc j)) ((c # names) ! Suc j)"
        by (simp add: add.assoc)
      then show ?L by (rule exI)
    qed
  qed
  show ?case
    unfolding emplace_components.simps Cons.IH ex
    by (cases "m k"; cases "k = SamplerComponent sname i c")
       (auto simp: emplace_def split: option.splits)
qed

lemma component_fresh:
  assumes "unat component_index < length (sampler_component_names smp)"
  shows "component (make_RequestedPrecisionConstructor dflt sname smp) component_index =
     (Returns (),
      (make_RequestedPrecisionConstructor dflt sname smp)\<lparr>requested_precision :=
         [SamplerComponent sname component_index
            (sampler_component_names smp ! unat component_index) \<mapsto> dflt]\<rparr>)"
proof -
  let ?names = "sampler_component_names smp"
  let ?k = "SamplerComponent sname component_index (?names ! unat component_index)"
  have "unat component_index < length ?names \<and>
        ?k = SamplerComponent sname (0 + of_nat (unat component_index))
               (?names ! unat component_index)"
    using assms by simp
  then have "\<exists>j < length ?names. ?k = SamplerComponent sname (0 + of_nat j) (?names ! j)"
    by (rule exI)
  then have "emplace_components sname dflt ?names 0 Map.empty ?k = Some dflt"
    unfolding emplace_components_lookup by simp
  with assms show ?thesis
    by (simp add: component_def make_RequestedPrecisionConstructor_def map_at_def emplace_def
          Let_def)
qed

text \<open>
  C8 (as amended).  \<^verbatim>\<open>set_abs_precision_by_component_index\<close> throws a
  \<^verbatim>\<open>std::runtime_error\<close> and leaves the map unchanged when the sampler name is not found
  or the component index is \<^verbatim>\<open>>=\<close> the number of components (compared as unsigned);
  otherwise it returns, having added exactly one entry, for (sampler, index, component
  name), if the map had none for this component, and having left the map unchanged if it
  had one.  \<^verbatim>\<open>converge\<close> throws a \<^verbatim>\<open>std::runtime_error\<close> when the sampler name is not
  found.  \<^verbatim>\<open>component\<close> throws a \<^verbatim>\<open>std::runtime_error\<close> and leaves the object
  unchanged when the index is \<^verbatim>\<open>>=\<close> the number of components; otherwise it narrows the
  map to exactly this component if the component is selected, as it is in a new
  constructor, and throws \<^verbatim>\<open>std::out_of_range\<close>, leaving the object unchanged, if it is
  not.
\<close>

theorem requested_precision_for_component:
  "(sampling_functions sname = None \<longrightarrow>
      (\<exists>msg. set_abs_precision_by_component_index RequestedPrecision_abs component_map
                sampling_functions sname component_index v =
              (Throws (runtime_error msg), component_map))) \<and>
   (\<forall>f. sampling_functions sname = Some f \<and> length (component_names f) \<le> unat component_index \<longrightarrow>
      (\<exists>msg. set_abs_precision_by_component_index RequestedPrecision_abs component_map
                sampling_functions sname component_index v =
              (Throws (runtime_error msg), component_map))) \<and>
   (\<forall>f. sampling_functions sname = Some f \<and> unat component_index < length (component_names f) \<longrightarrow>
      set_abs_precision_by_component_index RequestedPrecision_abs component_map
        sampling_functions sname component_index v =
      (Returns (),
       if component_map
            (SamplerComponent sname component_index (component_names f ! unat component_index))
          = None
       then component_map
            (SamplerComponent sname component_index (component_names f ! unat component_index)
               \<mapsto> RequestedPrecision_abs v)
       else component_map)) \<and>
   (samplers' sname = None \<longrightarrow> (\<exists>msg. converge dflt samplers' sname = Throws (runtime_error msg))) \<and>
   (length (sampler_component_names (sampler c)) \<le> unat component_index \<longrightarrow>
      (\<exists>msg. component c component_index = (Throws (runtime_error msg), c))) \<and>
   (unat component_index < length (sampler_component_names (sampler c)) \<longrightarrow>
      component c component_index =
        (case requested_precision c
                (SamplerComponent (sampler_name c) component_index
                   (sampler_component_names (sampler c) ! unat component_index)) of
           None \<Rightarrow> (Throws out_of_range, c)
         | Some chosen \<Rightarrow>
             (Returns (),
              c\<lparr>requested_precision :=
                  [SamplerComponent (sampler_name c) component_index
                     (sampler_component_names (sampler c) ! unat component_index)
                   \<mapsto> chosen]\<rparr>))) \<and>
   (unat component_index < length (sampler_component_names smp) \<longrightarrow>
      component (make_RequestedPrecisionConstructor dflt sname smp) component_index =
        (Returns (),
         (make_RequestedPrecisionConstructor dflt sname smp)\<lparr>requested_precision :=
            [SamplerComponent sname component_index
               (sampler_component_names smp ! unat component_index) \<mapsto> dflt]\<rparr>))"
proof (intro conjI allI impI)
  assume "sampling_functions sname = None"
  then show "\<exists>msg. set_abs_precision_by_component_index RequestedPrecision_abs component_map
                sampling_functions sname component_index v =
              (Throws (runtime_error msg), component_map)"
    by (simp add: set_abs_precision_by_component_index_def)
next
  fix f
  assume "sampling_functions sname = Some f \<and> length (component_names f) \<le> unat component_index"
  then show "\<exists>msg. set_abs_precision_by_component_index RequestedPrecision_abs component_map
                sampling_functions sname component_index v =
              (Throws (runtime_error msg), component_map)"
    by (simp add: set_abs_precision_by_component_index_def)
next
  fix f
  assume "sampling_functions sname = Some f \<and> unat component_index < length (component_names f)"
  then show "set_abs_precision_by_component_index RequestedPrecision_abs component_map
        sampling_functions sname component_index v =
      (Returns (),
       if component_map
            (SamplerComponent sname component_index (component_names f ! unat component_index))
          = None
       then component_map
            (SamplerComponent sname component_index (component_names f ! unat component_index)
               \<mapsto> RequestedPrecision_abs v)
       else component_map)"
    by (auto simp: set_abs_precision_by_component_index_def emplace_def split: option.splits)
next
  assume "samplers' sname = None"
  then show "\<exists>msg. converge dflt samplers' sname = Throws (runtime_error msg)"
    by (simp add: converge_def)
next
  assume "length (sampler_component_names (sampler c)) \<le> unat component_index"
  then show "\<exists>msg. component c component_index = (Throws (runtime_error msg), c)"
    by (simp add: component_def)
next
  assume "unat component_index < length (sampler_component_names (sampler c))"
  then show "component c component_index =
        (case requested_precision c
                (SamplerComponent (sampler_name c) component_index
                   (sampler_component_names (sampler c) ! unat component_index)) of
           None \<Rightarrow> (Throws out_of_range, c)
         | Some chosen \<Rightarrow>
             (Returns (),
              c\<lparr>requested_precision :=
                  [SamplerComponent (sampler_name c) component_index
                     (sampler_component_names (sampler c) ! unat component_index)
                   \<mapsto> chosen]\<rparr>))"
    by (simp add: component_def map_at_def emplace_def Let_def split: option.splits)
next
  assume "unat component_index < length (sampler_component_names smp)"
  then show "component (make_RequestedPrecisionConstructor dflt sname smp) component_index =
        (Returns (),
         (make_RequestedPrecisionConstructor dflt sname smp)\<lparr>requested_precision :=
            [SamplerComponent sname component_index
               (sampler_component_names smp ! unat component_index) \<mapsto> dflt]\<rparr>)"
    by (rule component_fresh)
qed

lemma example_constructor_eq:
  "example_constructor =
     \<lparr>sampler_name = ''a'', sampler = make_Sampler [2] [''x'', ''y''],
      requested_precision =
        [SamplerComponent ''a'' 0 ''x'' \<mapsto> example_precision,
         SamplerComponent ''a'' 1 ''y'' \<mapsto> example_precision]\<rparr>"
  by (simp add: example_constructor_def make_RequestedPrecisionConstructor_def make_Sampler_def
        emplace_def)

text \<open>
  The claim as stated fails where \<^verbatim>\<open>emplace\<close> finds the key and where \<^verbatim>\<open>at\<close> does not:
  a second request for the component \<open>(''a'', 0)\<close>, with another value, returns and
  leaves the map as the first request left it; and after \<^verbatim>\<open>component(0)\<close> the call
  \<^verbatim>\<open>component(1)\<close>, with the index in range, throws \<^verbatim>\<open>std::out_of_range\<close>.
\<close>

theorem existing_entry_counterexample:
  "set_abs_precision_by_component_index example_abs Map.empty example_functions ''a'' 0 1 =
     (Returns (), [SamplerComponent ''a'' 0 ''0'' \<mapsto> example_abs 1]) \<and>
   set_abs_precision_by_component_index example_abs
       [SamplerComponent ''a'' 0 ''0'' \<mapsto> example_abs 1] example_functions ''a'' 0 2 =
     (Returns (), [SamplerComponent ''a'' 0 ''0'' \<mapsto> example_abs 1]) \<and>
   example_abs 1 \<noteq> example_abs 2 \<and>
   component example_constructor 0 = (Returns (), narrowed_constructor) \<and>
   component narrowed_constructor 1 = (Throws out_of_range, narrowed_constructor)"
proof -
  have a: "set_abs_precision_by_component_index example_abs Map.empty example_functions ''a'' 0 1 =
     (Returns (), [SamplerComponent ''a'' 0 ''0'' \<mapsto> example_abs 1])"
    by (simp add: set_abs_precision_by_component_index_def example_functions_def
          example_function_def emplace_def)
  have b: "set_abs_precision_by_component_index example_abs
       [SamplerComponent ''a'' 0 ''0'' \<mapsto> example_abs 1] example_functions ''a'' 0 2 =
     (Returns (), [SamplerComponent ''a'' 0 ''0'' \<mapsto> example_abs 1])"
    by (simp add: set_abs_precision_by_component_index_def example_functions_def
          example_function_def emplace_def)
  have c: "example_abs 1 \<noteq> example_abs 2"
    by (simp add: example_abs_def example_precision_def)
  have d: "component example_constructor 0 = (Returns (), narrowed_constructor)"
    by (simp add: narrowed_constructor_def example_constructor_eq component_def map_at_def
          emplace_def make_Sampler_def Let_def)
  have e: "component narrowed_constructor 1 = (Throws out_of_range, narrowed_constructor)"
    by (simp add: narrowed_constructor_def example_constructor_eq component_def map_at_def
          make_Sampler_def Let_def)
  from a b c d e show ?thesis by (intro conjI)
qed

text \<open>
  The theorem at an unknown name, at an index out of range, at a first request, and at
  \<^verbatim>\<open>component(5)\<close> and \<^verbatim>\<open>component(1)\<close> of a new constructor with two components.
\<close>

theorem requested_precision_for_component_witness:
  "example_functions ''b'' = None \<and>
   (\<exists>msg. set_abs_precision_by_component_index example_abs Map.empty example_functions ''b'' 0 1 =
           (Throws (runtime_error msg), Map.empty)) \<and>
   (example_functions ''a'' = Some (example_function ''a'' 1) \<and>
    length (component_names (example_function ''a'' 1)) \<le> unat (5 :: Index)) \<and>
   (\<exists>msg. set_abs_precision_by_component_index example_abs Map.empty example_functions ''a'' 5 1 =
           (Throws (runtime_error msg), Map.empty)) \<and>
   (example_functions ''a'' = Some (example_function ''a'' 1) \<and>
    unat (0 :: Index) < length (component_names (example_function ''a'' 1))) \<and>
   set_abs_precision_by_component_index example_abs Map.empty example_functions ''a'' 0 1 =
     (Returns (), [SamplerComponent ''a'' 0 ''0'' \<mapsto> example_abs 1]) \<and>
   (Map.empty :: string \<rightharpoonup> Sampler) ''a'' = None \<and>
   (\<exists>msg. converge example_precision Map.empty ''a'' = Throws (runtime_error msg)) \<and>
   length (sampler_component_names (sampler example_constructor)) \<le> unat (5 :: Index) \<and>
   (\<exists>msg. component example_constructor 5 = (Throws (runtime_error msg), example_constructor)) \<and>
   unat (1 :: Index) < length (sampler_component_names (sampler example_constructor)) \<and>
   component example_constructor 1 =
     (Returns (),
      example_constructor\<lparr>requested_precision :=
        [SamplerComponent ''a'' 1 ''y'' \<mapsto> example_precision]\<rparr>)"
proof -
  have h1: "example_functions ''b'' = None" by (simp add: example_functions_def)
  have h2: "example_functions ''a'' = Some (example_function ''a'' 1) \<and>
    length (component_names (example_function ''a'' 1)) \<le> unat (5 :: Index)"
    by (simp add: example_functions_def example_function_def)
  have h3: "example_functions ''a'' = Some (example_function ''a'' 1) \<and>
    unat (0 :: Index) < length (component_names (example_function ''a'' 1))"
    by (simp add: example_functions_def example_function_def)
  have h4: "(Map.empty :: string \<rightharpoonup> Sampler) ''a'' = None" by simp
  have h5: "length (sampler_component_names (sampler example_constructor)) \<le> unat (5 :: Index)"
    by (simp add: example_constructor_eq make_Sampler_def)
  have h6: "unat (1 :: Index) < length (sampler_component_names (sampler example_constructor))"
    by (simp add: example_constructor_eq make_Sampler_def)
  note A = requested_precision_for_component
    [of example_functions "''b''" example_abs Map.empty 0 1 Map.empty example_precision
        example_constructor "make_Sampler [2] [''x'', ''y'']"]
  note B = requested_precision_for_component
    [of example_functions "''a''" example_abs Map.empty 5 1 Map.empty example_precision
        example_constructor "make_Sampler [2] [''x'', ''y'']"]
  note C = requested_precision_for_component
    [of example_functions "''a''" example_abs Map.empty 0 1 Map.empty example_precision
        example_constructor "make_Sampler [2] [''x'', ''y'']"]
  note D = requested_precision_for_component
    [of example_functions "''a''" example_abs Map.empty 1 1 Map.empty example_precision
        example_constructor "make_Sampler [2] [''x'', ''y'']"]
  from A [THEN conjunct1] h1
  have c1: "\<exists>msg. set_abs_precision_by_component_index example_abs Map.empty example_functions
              ''b'' 0 1 = (Throws (runtime_error msg), Map.empty)" by (rule mp)
  from B [THEN conjunct2, THEN conjunct1, THEN spec, of "example_function ''a'' 1"] h2
  have c2: "\<exists>msg. set_abs_precision_by_component_index example_abs Map.empty example_functions
              ''a'' 5 1 = (Throws (runtime_error msg), Map.empty)" by (rule mp)
  from C [THEN conjunct2, THEN conjunct2, THEN conjunct1, THEN spec, of "example_function ''a'' 1"] h3
  have c3: "set_abs_precision_by_component_index example_abs Map.empty example_functions
       ''a'' 0 1 = (Returns (), [SamplerComponent ''a'' 0 ''0'' \<mapsto> example_abs 1])"
    by (simp add: example_function_def)
  from A [THEN conjunct2, THEN conjunct2, THEN conjunct2, THEN conjunct1] h4
  have c4: "\<exists>msg. converge example_precision Map.empty ''b'' = Throws (runtime_error msg)"
    by simp
  have c4': "\<exists>msg. converge example_precision Map.empty ''a'' = Throws (runtime_error msg)"
    using B [THEN conjunct2, THEN conjunct2, THEN conjunct2, THEN conjunct1] h4 by simp
  from B [THEN conjunct2, THEN conjunct2, THEN conjunct2, THEN conjunct2, THEN conjunct1] h5
  have c5: "\<exists>msg. component example_constructor 5 = (Throws (runtime_error msg), example_constructor)"
    by (rule mp)
  from D [THEN conjunct2, THEN conjunct2, THEN conjunct2, THEN conjunct2, THEN conjunct2,
          THEN conjunct1] h6
  have c6: "component example_constructor 1 =
     (Returns (),
      example_constructor\<lparr>requested_precision :=
        [SamplerComponent ''a'' 1 ''y'' \<mapsto> example_precision]\<rparr>)"
    by (simp add: example_constructor_eq make_Sampler_def)
  from h1 c1 h2 c2 h3 c3 h4 c4' h5 c5 h6 c6 show ?thesis by (intro conjI) simp_all
qed

section \<open>Properties of the parsers\<close>

text \<open>
  No step of a parser changes the input or the value, and none removes an error, so an
  error recorded at the period stays to the end.
\<close>

lemma insert_error_invalid: "error (insert_error parser option message) \<noteq> []"
  by (simp add: insert_error_def)

lemma insert_error_keeps:
  "self (insert_error parser option message) = self parser \<and>
   parsed_value (insert_error parser option message) = parsed_value parser"
  by (simp add: insert_error_def)

lemma optional_keeps:
  "self (snd (optional from_json parser v option)) = self parser \<and>
   parsed_value (snd (optional from_json parser v option)) = parsed_value parser \<and>
   (error parser \<noteq> [] \<longrightarrow> error (snd (optional from_json parser v option)) \<noteq> [])"
  by (simp add: optional_def insert_error_def split: option.splits json.splits)

lemma require_keeps:
  "self (snd (require from_json parser option)) = self parser \<and>
   parsed_value (snd (require from_json parser option)) = parsed_value parser \<and>
   (error parser \<noteq> [] \<longrightarrow> error (snd (require from_json parser option)) \<noteq> []) \<and>
   (fst (require from_json parser option) = None \<longrightarrow>
      error (snd (require from_json parser option)) \<noteq> [])"
  by (simp add: require_def insert_error_def split: option.splits)

lemma check_quantities_keeps:
  "self (check_quantities names ns parser) = self parser \<and>
   parsed_value (check_quantities names ns parser) = parsed_value parser \<and>
   (error parser \<noteq> [] \<longrightarrow> error (check_quantities names ns parser) \<noteq> [])"
  by (induction ns arbitrary: parser) (simp_all add: insert_error_def)

lemma parse_sample_by_keeps:
  "self (snd (parse_sample_by (sp, parser) mode tsa)) = self parser \<and>
   parsed_value (snd (parse_sample_by (sp, parser) mode tsa)) = parsed_value parser"
  by (simp add: parse_sample_by_def insert_error_def)

lemma parse_spacing_keeps:
  "self (snd (parse_spacing (sp, parser))) = self parser \<and>
   parsed_value (snd (parse_spacing (sp, parser))) = parsed_value parser"
  using optional_keeps [of string_from_json parser "''linear''" "[''spacing'']"]
  by (cases "optional string_from_json parser ''linear'' [''spacing'']")
     (simp add: parse_spacing_def insert_error_def)

lemma parse_spacing_linear:
  assumes "find_at (self parser) [''spacing''] \<in> {None, Some jsonNull, Some (jsonString ''linear'')}"
  shows "params_sample_method (fst (parse_spacing (sp, parser))) = LINEAR"
  using assms by (auto simp: parse_spacing_def optional_def)

lemma parse_spacing_log:
  assumes "find_at (self parser) [''spacing''] = Some (jsonString ''log'')"
  shows "params_sample_method (fst (parse_spacing (sp, parser))) = LOG"
  using assms by (simp add: parse_spacing_def optional_def)

lemma parse_begin_period_keeps:
  "self (snd (parse_begin_period (sp, parser))) = self parser \<and>
   parsed_value (snd (parse_begin_period (sp, parser))) = parsed_value parser"
proof -
  obtain b p1 where o: "optional double_from_json parser 0 [''begin''] = (b, p1)"
    by (cases "optional double_from_json parser 0 [''begin'']")
  obtain pd p2 where r: "require_into double_from_json p1 (params_period sp) [''period''] = (pd, p2)"
    by (cases "require_into double_from_json p1 (params_period sp) [''period'']")
  from optional_keeps [of double_from_json parser 0 "[''begin'']"] o
  have k1: "self p1 = self parser" "parsed_value p1 = parsed_value parser" by simp_all
  from require_keeps [of double_from_json p1 "[''period'']"] r
  have k2: "self p2 = self p1" "parsed_value p2 = parsed_value p1"
    by (auto simp: require_into_def split: prod.splits option.splits)
  show ?thesis
    by (simp add: parse_begin_period_def o r k1 k2 Let_def insert_error_def)
qed

lemma parse_begin_period_rejects:
  assumes "find_at (self parser) [''period''] = Some (jsonNumber p)"
    and "(params_sample_method sp = LINEAR \<and> p \<le> 0) \<or> (params_sample_method sp = LOG \<and> p \<le> 1)"
  shows "error (snd (parse_begin_period (sp, parser))) \<noteq> []"
proof -
  obtain b p1 where o: "optional double_from_json parser 0 [''begin''] = (b, p1)"
    by (cases "optional double_from_json parser 0 [''begin'']")
  from optional_keeps [of double_from_json parser 0 "[''begin'']"] o
  have k1: "self p1 = self parser" by simp
  with assms(1) have r: "require_into double_from_json p1 (params_period sp) [''period''] = (p, p1)"
    by (simp add: require_into_def require_def)
  from assms(2) show ?thesis
    by (auto simp: parse_begin_period_def o r Let_def insert_error_def)
qed

lemma parse_remaining_rejects:
  assumes "error parser \<noteq> []" "parsed_value parser = None"
  shows "error (parse_remaining (sp, parser) names tsa) \<noteq> [] \<and>
         parsed_value (parse_remaining (sp, parser) names tsa) = None"
proof -
  obtain v1 p1 where o1: "optional double_from_json parser 1 [''samples_per_period''] = (v1, p1)"
    by (cases "optional double_from_json parser 1 [''samples_per_period'']")
  obtain v2 p2 where o2: "optional double_from_json p1 0 [''shift''] = (v2, p2)"
    by (cases "optional double_from_json p1 0 [''shift'']")
  obtain v3 p3 where o3: "optional bool_from_json p2 False [''stochastic_sample_period''] = (v3, p3)"
    by (cases "optional bool_from_json p2 False [''stochastic_sample_period'']")
  obtain v4 p4 where o4: "optional (those_from_json string_from_json) p3
               (params_sampler_names sp) [''quantities''] = (v4, p4)"
    by (cases "optional (those_from_json string_from_json) p3
               (params_sampler_names sp) [''quantities'']")
  obtain v5 p5 where o5: "optional bool_from_json (check_quantities names v4 p4)
               (params_do_sample_trajectory sp) [''sample_trajectory''] = (v5, p5)"
    by (cases "optional bool_from_json (check_quantities names v4 p4)
               (params_do_sample_trajectory sp) [''sample_trajectory'']")
  from optional_keeps [of double_from_json parser 1 "[''samples_per_period'']"] o1 assms
  have e1: "error p1 \<noteq> []" "parsed_value p1 = None" by simp_all
  from optional_keeps [of double_from_json p1 0 "[''shift'']"] o2 e1
  have e2: "error p2 \<noteq> []" "parsed_value p2 = None" by simp_all
  from optional_keeps [of bool_from_json p2 False "[''stochastic_sample_period'']"] o3 e2
  have e3: "error p3 \<noteq> []" "parsed_value p3 = None" by simp_all
  from optional_keeps [of "those_from_json string_from_json" p3 "params_sampler_names sp"
      "[''quantities'']"] o4 e3
  have e4: "error p4 \<noteq> []" "parsed_value p4 = None" by simp_all
  from check_quantities_keeps [of names v4 p4] e4
  have e4': "error (check_quantities names v4 p4) \<noteq> []"
    "parsed_value (check_quantities names v4 p4) = None" by simp_all
  from optional_keeps [of bool_from_json "check_quantities names v4 p4"
      "params_do_sample_trajectory sp" "[''sample_trajectory'']"] o5 e4'
  have e5: "error p5 \<noteq> []" "parsed_value p5 = None" by simp_all
  show ?thesis
    by (simp add: parse_remaining_def o1 o2 o3 o4 o5 e5 valid_def)
qed

lemma subparse_else_keeps:
  "self (snd (subparse_else parse_sub parser option dflt)) = self parser \<and>
   parsed_value (snd (subparse_else parse_sub parser option dflt)) = parsed_value parser"
  by (simp add: subparse_else_def split: option.splits prod.splits)

lemma parse_quantity_keeps:
  "self (snd (parse_quantity parser sampling_functions option)) = self parser \<and>
   parsed_value (snd (parse_quantity parser sampling_functions option)) = parsed_value parser"
  using require_keeps [of string_from_json parser "option @ [''quantity'']"]
  by (cases "require string_from_json parser (option @ [''quantity''])")
     (auto simp: parse_quantity_def insert_error_def split: option.splits)

lemma parse_component_index_loop_keeps:
  "self (fst (parse_component_index_loop is option f pr (parser, requested))) = self parser \<and>
   parsed_value (fst (parse_component_index_loop is option f pr (parser, requested))) =
     parsed_value parser"
  by (induction "is" arbitrary: parser requested) (simp_all add: insert_error_def)

lemma parse_component_name_loop_keeps:
  "self (fst (parse_component_name_loop ns option f pr (parser, requested))) = self parser \<and>
   parsed_value (fst (parse_component_name_loop ns option f pr (parser, requested))) =
     parsed_value parser"
  by (induction ns arbitrary: parser requested)
     (simp_all add: insert_error_def split: option.splits)

lemma parse_components_keeps:
  "self (fst (parse_components parser option f pr requested)) = self parser \<and>
   parsed_value (fst (parse_components parser option f pr requested)) = parsed_value parser"
proof -
  obtain v1 p1 where o1: "optional (those_from_json Index_from_json) parser []
      (option @ [''component_index'']) = (v1, p1)"
    by (cases "optional (those_from_json Index_from_json) parser [] (option @ [''component_index''])")
  obtain v2 p2 where o2: "optional (those_from_json string_from_json) parser []
      (option @ [''component_name'']) = (v2, p2)"
    by (cases "optional (those_from_json string_from_json) parser [] (option @ [''component_name''])")
  from optional_keeps [of "those_from_json Index_from_json" parser "[]"
      "option @ [''component_index'']"] o1
  have k1: "self p1 = self parser" "parsed_value p1 = parsed_value parser" by simp_all
  from optional_keeps [of "those_from_json string_from_json" parser "[]"
      "option @ [''component_name'']"] o2
  have k2: "self p2 = self parser" "parsed_value p2 = parsed_value parser" by simp_all
  show ?thesis
    by (simp add: parse_components_def parse_component_index_def parse_component_name_def
          o1 o2 k1 k2 parse_component_index_loop_keeps parse_component_name_loop_keeps
          insert_error_def Let_def)
qed

lemma parse_convergence_loop_keeps:
  "self (fst (parse_convergence_loop from_json fs elements is (parser, requested))) = self parser \<and>
   parsed_value (fst (parse_convergence_loop from_json fs elements is (parser, requested))) =
     parsed_value parser"
proof (induction "is" arbitrary: parser requested)
  case Nil
  then show ?case by simp
next
  case (Cons i rest)
  let ?option = "[''convergence'', to_string (int i)]"
  obtain q p1 where q: "parse_quantity parser fs ?option = (q, p1)"
    by (cases "parse_quantity parser fs ?option")
  from parse_quantity_keeps [of parser fs ?option] q
  have k1: "self p1 = self parser" "parsed_value p1 = parsed_value parser" by simp_all
  show ?case
  proof (cases q)
    case None
    with q k1 Cons.IH [of p1 requested] show ?thesis by (simp add: Let_def)
  next
    case (Some f)
    obtain p2 r2 where c: "parse_components p1 ?option f (from_json (elements ! i)) requested = (p2, r2)"
      by (cases "parse_components p1 ?option f (from_json (elements ! i)) requested")
    from parse_components_keeps [of p1 ?option f "from_json (elements ! i)" requested] c k1
    have k2: "self p2 = self parser" "parsed_value p2 = parsed_value parser" by simp_all
    with q Some c Cons.IH [of p2 r2] show ?thesis by (simp add: Let_def)
  qed
qed

lemma parse_convergence_criteria_keeps:
  "self (fst (parse_convergence_criteria from_json parser fs requested)) = self parser \<and>
   parsed_value (fst (parse_convergence_criteria from_json parser fs requested)) =
     parsed_value parser"
  by (simp add: parse_convergence_criteria_def parse_convergence_loop_keeps insert_error_def
        split: option.splits json.splits)

lemma parse_statistics_and_cutoff_keeps:
  "self (snd (parse_statistics_and_cutoff ext parser)) = self parser \<and>
   parsed_value (snd (parse_statistics_and_cutoff ext parser)) = parsed_value parser"
proof -
  obtain v1 p1 where o1: "optional double_from_json parser (95 / 100) [''confidence''] = (v1, p1)"
    by (cases "optional double_from_json parser (95 / 100) [''confidence'']")
  obtain v2 p2 where o2: "optional Index_from_json p1 1 [''weighted_observations_method''] = (v2, p2)"
    by (cases "optional Index_from_json p1 1 [''weighted_observations_method'']")
  obtain v3 p3 where o3: "optional Index_from_json p2 10000 [''n_resamples''] = (v3, p3)"
    by (cases "optional Index_from_json p2 10000 [''n_resamples'']")
  obtain v4 b4 p4 where o4: "subparse_else (parse_CutoffCheckParams ext) p3 [''cutoff'']
             (default_CutoffCheckParams ext) = ((v4, b4), p4)"
    by (cases "subparse_else (parse_CutoffCheckParams ext) p3 [''cutoff'']
             (default_CutoffCheckParams ext)") auto
  from optional_keeps [of double_from_json parser "95 / 100" "[''confidence'']"] o1
  have k1: "self p1 = self parser" "parsed_value p1 = parsed_value parser" by simp_all
  from optional_keeps [of Index_from_json p1 1 "[''weighted_observations_method'']"] o2 k1
  have k2: "self p2 = self parser" "parsed_value p2 = parsed_value parser" by simp_all
  from optional_keeps [of Index_from_json p2 10000 "[''n_resamples'']"] o3 k2
  have k3: "self p3 = self parser" "parsed_value p3 = parsed_value parser" by simp_all
  from subparse_else_keeps [of "parse_CutoffCheckParams ext" p3 "[''cutoff'']"
      "default_CutoffCheckParams ext"] o4 k3
  have k4: "self p4 = self parser" "parsed_value p4 = parsed_value parser" by simp_all
  show ?thesis
    unfolding parse_statistics_and_cutoff_def o1 prod.case o2 o3 o4
    by (simp add: k4 Let_def)
qed

lemma parse_convergence_keeps:
  "self (snd (parse_convergence ext fs (cp, parser))) = self parser \<and>
   parsed_value (snd (parse_convergence ext fs (cp, parser))) = parsed_value parser"
  using parse_convergence_criteria_keeps
    [of "RequestedPrecision_from_json ext" parser fs "params_requested_precision cp"]
  by (cases "parse_convergence_criteria (RequestedPrecision_from_json ext) parser fs
               (params_requested_precision cp)")
     (simp add: parse_convergence_def)

lemma parse_check_spacing_keeps:
  "self (snd (parse_check_spacing (cp, parser))) = self parser \<and>
   parsed_value (snd (parse_check_spacing (cp, parser))) = parsed_value parser"
  using optional_keeps [of string_from_json parser "''linear''" "[''spacing'']"]
  by (cases "optional string_from_json parser ''linear'' [''spacing'']")
     (simp add: parse_check_spacing_def insert_error_def)

lemma parse_check_spacing_linear:
  assumes "find_at (self parser) [''spacing''] \<in> {None, Some jsonNull, Some (jsonString ''linear'')}"
  shows "log_spacing (fst (parse_check_spacing (cp, parser))) = False"
  using assms by (auto simp: parse_check_spacing_def optional_def)

lemma parse_check_spacing_log:
  assumes "find_at (self parser) [''spacing''] = Some (jsonString ''log'')"
  shows "log_spacing (fst (parse_check_spacing (cp, parser))) = True"
  using assms by (simp add: parse_check_spacing_def optional_def)

lemma parse_check_begin_period_keeps:
  "parsed_value (snd (parse_check_begin_period (cp, parser))) = parsed_value parser"
proof -
  obtain b p1 where o: "optional double_from_json parser 0 [''begin''] = (b, p1)"
    by (cases "optional double_from_json parser 0 [''begin'']")
  obtain pd p2 where r: "optional double_from_json p1 10 [''period''] = (pd, p2)"
    by (cases "optional double_from_json p1 10 [''period'']")
  from optional_keeps [of double_from_json parser 0 "[''begin'']"] o
  have k1: "parsed_value p1 = parsed_value parser" by simp
  from optional_keeps [of double_from_json p1 10 "[''period'']"] r k1
  have k2: "parsed_value p2 = parsed_value parser" by simp
  show ?thesis
    by (simp add: parse_check_begin_period_def o r k2 Let_def insert_error_def)
qed

lemma parse_check_begin_period_rejects:
  assumes "find_at (self parser) [''period''] = Some (jsonNumber p)"
    and "(\<not> log_spacing cp \<and> p \<le> 0) \<or> (log_spacing cp \<and> p \<le> 1)"
  shows "error (snd (parse_check_begin_period (cp, parser))) \<noteq> []"
proof -
  obtain b p1 where o: "optional double_from_json parser 0 [''begin''] = (b, p1)"
    by (cases "optional double_from_json parser 0 [''begin'']")
  from optional_keeps [of double_from_json parser 0 "[''begin'']"] o
  have k1: "self p1 = self parser" by simp
  with assms(1) have r: "optional double_from_json p1 10 [''period''] = (p, p1)"
    by (simp add: optional_def)
  from assms(2) show ?thesis
    by (auto simp: parse_check_begin_period_def o r Let_def insert_error_def)
qed

lemma parse_check_remaining_rejects:
  assumes "error parser \<noteq> []" "parsed_value parser = None"
  shows "error (parse_check_remaining (cp, parser)) \<noteq> [] \<and>
         parsed_value (parse_check_remaining (cp, parser)) = None"
proof -
  obtain v1 p1 where o1: "optional double_from_json parser 1 [''checks_per_period''] = (v1, p1)"
    by (cases "optional double_from_json parser 1 [''checks_per_period'']")
  obtain v2 p2 where o2: "optional double_from_json p1 1 [''shift''] = (v2, p2)"
    by (cases "optional double_from_json p1 1 [''shift'']")
  from optional_keeps [of double_from_json parser 1 "[''checks_per_period'']"] o1 assms
  have e1: "error p1 \<noteq> []" "parsed_value p1 = None" by simp_all
  from optional_keeps [of double_from_json p1 1 "[''shift'']"] o2 e1
  have e2: "error p2 \<noteq> []" "parsed_value p2 = None" by simp_all
  show ?thesis
    by (simp add: parse_check_remaining_def o1 o2 e2 valid_def Let_def)
qed

lemma period_out_of_range_cases:
  assumes "period_out_of_range input"
  obtains p where "find_at input [''period''] = Some (jsonNumber p)"
    "(find_at input [''spacing''] \<in> {None, Some jsonNull, Some (jsonString ''linear'')} \<and> p \<le> 0) \<or>
     (find_at input [''spacing''] = Some (jsonString ''log'') \<and> p \<le> 1)"
  using assms
  by (auto simp: period_out_of_range_def split: option.splits json.splits)

text \<open>
  C7.  When \<open>"period"\<close> is given \<open>\<le> 0\<close> with linear spacing or \<open>\<le> 1\<close> with log
  spacing, the parser of the sampling parameters and the parser of the completion check
  parameters both end invalid (an error is recorded) and without a value.
\<close>

theorem parse_rejects_period_out_of_range:
  "(period_out_of_range (self parser) \<and> parsed_value parser = None \<longrightarrow>
      \<not> valid (parse_SamplingParams default_params parser sampling_function_names
                 time_sampling_allowed) \<and>
      parsed_value (parse_SamplingParams default_params parser sampling_function_names
                      time_sampling_allowed) = None) \<and>
   (period_out_of_range (self parser') \<and> parsed_value parser' = None \<longrightarrow>
      \<not> valid (parse_CompletionCheckParams ext parser' sampling_functions) \<and>
      parsed_value (parse_CompletionCheckParams ext parser' sampling_functions) = None)"
proof (intro conjI impI)
  assume a: "period_out_of_range (self parser) \<and> parsed_value parser = None"
  then obtain p where p: "find_at (self parser) [''period''] = Some (jsonNumber p)"
    and sp: "(find_at (self parser) [''spacing''] \<in>
                {None, Some jsonNull, Some (jsonString ''linear'')} \<and> p \<le> 0) \<or>
             (find_at (self parser) [''spacing''] = Some (jsonString ''log'') \<and> p \<le> 1)"
    by (auto elim: period_out_of_range_cases)
  have "error (parse_SamplingParams default_params parser sampling_function_names
                 time_sampling_allowed) \<noteq> [] \<and>
        parsed_value (parse_SamplingParams default_params parser sampling_function_names
                      time_sampling_allowed) = None"
  proof (cases "require string_from_json parser [''sample_by'']")
    case (Pair m p0)
    from require_keeps [of string_from_json parser "[''sample_by'']"] Pair a
    have k0: "self p0 = self parser" "parsed_value p0 = None"
      "m = None \<longrightarrow> error p0 \<noteq> []" by simp_all
    show ?thesis
    proof (cases m)
      case None
      with Pair k0 show ?thesis by (simp add: parse_SamplingParams_def)
    next
      case (Some mode)
      obtain s1 p1 where c1: "parse_sample_by (default_params, p0) mode time_sampling_allowed = (s1, p1)"
        by (cases "parse_sample_by (default_params, p0) mode time_sampling_allowed")
      obtain s2 p2 where c2: "parse_spacing (s1, p1) = (s2, p2)"
        by (cases "parse_spacing (s1, p1)")
      obtain s3 p3 where c3: "parse_begin_period (s2, p2) = (s3, p3)"
        by (cases "parse_begin_period (s2, p2)")
      from parse_sample_by_keeps [of default_params p0 mode time_sampling_allowed] c1 k0
      have k1: "self p1 = self parser" "parsed_value p1 = None" by simp_all
      from parse_spacing_keeps [of s1 p1] c2 k1
      have k2: "self p2 = self parser" "parsed_value p2 = None" by simp_all
      from parse_begin_period_keeps [of s2 p2] c3 k2
      have k3: "parsed_value p3 = None" by simp
      have m2: "(params_sample_method s2 = LINEAR \<and> p \<le> 0) \<or>
                (params_sample_method s2 = LOG \<and> p \<le> 1)"
        using sp parse_spacing_linear [of p1 s1] parse_spacing_log [of p1 s1] c2 k1 by auto
      from p k2 have "find_at (self p2) [''period''] = Some (jsonNumber p)" by simp
      from parse_begin_period_rejects [OF this m2] c3 have e3: "error p3 \<noteq> []" by simp
      from parse_remaining_rejects [OF e3 k3, of s3 sampling_function_names time_sampling_allowed]
      show ?thesis by (simp add: parse_SamplingParams_def Pair Some c1 c2 c3)
    qed
  qed
  then show "\<not> valid (parse_SamplingParams default_params parser sampling_function_names
                 time_sampling_allowed)"
    and "parsed_value (parse_SamplingParams default_params parser sampling_function_names
                      time_sampling_allowed) = None"
    by (simp_all add: valid_def)
next
  assume a: "period_out_of_range (self parser') \<and> parsed_value parser' = None"
  then obtain p where p: "find_at (self parser') [''period''] = Some (jsonNumber p)"
    and sp: "(find_at (self parser') [''spacing''] \<in>
                {None, Some jsonNull, Some (jsonString ''linear'')} \<and> p \<le> 0) \<or>
             (find_at (self parser') [''spacing''] = Some (jsonString ''log'') \<and> p \<le> 1)"
    by (auto elim: period_out_of_range_cases)
  obtain s1 p1 where c1: "parse_statistics_and_cutoff ext parser' = (s1, p1)"
    by (cases "parse_statistics_and_cutoff ext parser'")
  obtain s2 p2 where c2: "parse_convergence ext sampling_functions (s1, p1) = (s2, p2)"
    by (cases "parse_convergence ext sampling_functions (s1, p1)")
  obtain s3 p3 where c3: "parse_check_spacing (s2, p2) = (s3, p3)"
    by (cases "parse_check_spacing (s2, p2)")
  obtain s4 p4 where c4: "parse_check_begin_period (s3, p3) = (s4, p4)"
    by (cases "parse_check_begin_period (s3, p3)")
  from parse_statistics_and_cutoff_keeps [of ext parser'] c1 a
  have k1: "self p1 = self parser'" "parsed_value p1 = None" by simp_all
  from parse_convergence_keeps [of ext sampling_functions s1 p1] c2 k1
  have k2: "self p2 = self parser'" "parsed_value p2 = None" by simp_all
  from parse_check_spacing_keeps [of s2 p2] c3 k2
  have k3: "self p3 = self parser'" "parsed_value p3 = None" by simp_all
  from parse_check_begin_period_keeps [of s3 p3] c4 k3
  have k4: "parsed_value p4 = None" by simp
  have m3: "(\<not> log_spacing s3 \<and> p \<le> 0) \<or> (log_spacing s3 \<and> p \<le> 1)"
    using sp parse_check_spacing_linear [of p2 s2] parse_check_spacing_log [of p2 s2] c3 k2
    by auto
  from p k3 have "find_at (self p3) [''period''] = Some (jsonNumber p)" by simp
  from parse_check_begin_period_rejects [OF this m3] c4 have e4: "error p4 \<noteq> []" by simp
  from parse_check_remaining_rejects [OF e4 k4, of s4]
  have "error (parse_CompletionCheckParams ext parser' sampling_functions) \<noteq> [] \<and>
        parsed_value (parse_CompletionCheckParams ext parser' sampling_functions) = None"
    by (simp add: parse_CompletionCheckParams_def c1 c2 c3 c4)
  then show "\<not> valid (parse_CompletionCheckParams ext parser' sampling_functions)"
    and "parsed_value (parse_CompletionCheckParams ext parser' sampling_functions) = None"
    by (simp_all add: valid_def)
qed

text \<open>
  The parsers do produce values: \<open>"sample_by": "pass"\<close> with \<open>"period": 10\<close> and
  \<open>"spacing": "log"\<close> with \<open>"period": 2\<close> are accepted.
\<close>

lemma parse_SamplingParams_accepts:
  "parse_SamplingParams example_SamplingParams (make_InputParser linear_period_10) {} False =
     \<lparr>self = linear_period_10, error = [],
      parsed_value = Some (example_SamplingParams\<lparr>params_period := 10\<rparr>)\<rparr>"
  by (simp add: parse_SamplingParams_def parse_remaining_def parse_begin_period_def
        parse_spacing_def parse_sample_by_def require_def require_into_def optional_def
        make_InputParser_def linear_period_10_def example_SamplingParams_def valid_def Let_def)

lemma parse_CompletionCheckParams_accepts:
  "parsed_value (parse_CompletionCheckParams example_collaborators
       (make_InputParser (jsonObject [(''spacing'', jsonString ''log''), (''period'', jsonNumber 2)]))
       (Map.empty :: unit StateSamplingFunctionMap)) =
     Some ((default_CompletionCheckParams example_collaborators)
             \<lparr>log_spacing := True, check_period := 2\<rparr>)"
  by (simp add: parse_CompletionCheckParams_def parse_check_remaining_def
        parse_check_begin_period_def parse_check_spacing_def parse_convergence_def
        parse_convergence_criteria_def parse_statistics_and_cutoff_def subparse_else_def
        optional_def make_InputParser_def example_collaborators_def valid_def Let_def)

text \<open>
  The theorem at \<open>"period": 0\<close> with the default, linear, spacing for the sampling
  parameters and at \<open>"period": 1\<close> with \<open>"spacing": "log"\<close> for the completion check
  parameters.
\<close>

theorem parse_rejects_period_out_of_range_witness:
  "(period_out_of_range (self (make_InputParser linear_period_0 :: SamplingParams InputParser)) \<and>
    parsed_value (make_InputParser linear_period_0 :: SamplingParams InputParser) = None) \<and>
   \<not> valid (parse_SamplingParams example_SamplingParams (make_InputParser linear_period_0) {} False) \<and>
   parsed_value (parse_SamplingParams example_SamplingParams (make_InputParser linear_period_0) {} False)
     = None \<and>
   (period_out_of_range
      (self (make_InputParser log_period_1 :: (unit, unit) CompletionCheckParams InputParser)) \<and>
    parsed_value (make_InputParser log_period_1 :: (unit, unit) CompletionCheckParams InputParser)
      = None) \<and>
   \<not> valid (parse_CompletionCheckParams example_collaborators (make_InputParser log_period_1)
              (Map.empty :: unit StateSamplingFunctionMap)) \<and>
   parsed_value (parse_CompletionCheckParams example_collaborators (make_InputParser log_period_1)
                   (Map.empty :: unit StateSamplingFunctionMap)) = None"
proof -
  have h1: "period_out_of_range (self (make_InputParser linear_period_0 :: SamplingParams InputParser)) \<and>
    parsed_value (make_InputParser linear_period_0 :: SamplingParams InputParser) = None"
    by (simp add: period_out_of_range_def make_InputParser_def linear_period_0_def)
  have h2: "period_out_of_range
      (self (make_InputParser log_period_1 :: (unit, unit) CompletionCheckParams InputParser)) \<and>
    parsed_value (make_InputParser log_period_1 :: (unit, unit) CompletionCheckParams InputParser)
      = None"
    by (simp add: period_out_of_range_def make_InputParser_def log_period_1_def)
  note t = parse_rejects_period_out_of_range
    [of "make_InputParser linear_period_0" example_SamplingParams "{}" False
        "make_InputParser log_period_1" example_collaborators
        "Map.empty :: unit StateSamplingFunctionMap"]
  from t [THEN conjunct1] h1
  have c1: "\<not> valid (parse_SamplingParams example_SamplingParams (make_InputParser linear_period_0) {} False) \<and>
   parsed_value (parse_SamplingParams example_SamplingParams (make_InputParser linear_period_0) {} False)
     = None" by (rule mp)
  from t [THEN conjunct2] h2
  have c2: "\<not> valid (parse_CompletionCheckParams example_collaborators (make_InputParser log_period_1)
              (Map.empty :: unit StateSamplingFunctionMap)) \<and>
   parsed_value (parse_CompletionCheckParams example_collaborators (make_InputParser log_period_1)
                   (Map.empty :: unit StateSamplingFunctionMap)) = None" by (rule mp)
  from h1 c1 h2 c2 show ?thesis by simp
qed

end
